theory Spec2Isabelle
  imports Main "HOL-Library.Char_ord" "HOL-Library.List_Lexorder"
begin

section \<open>Python values and dictionaries\<close>

text \<open>
  The scripts exchange parsed JSON and YAML documents. A document is a value of
  \<open>json\<close>; a Python \<open>dict\<close> is an association list in insertion order whose keys are
  pairwise distinct (\<open>is_dict\<close>), looked up with \<open>map_of\<close>.
\<close>

datatype json =
    JNull
  | JBool bool
  | JInt int
  | JStr string
  | JList "json list"
  | JDict "(string \<times> json) list"

type_synonym pydict = "(string \<times> json) list"

datatype error = FileNotFoundError | TypeError | AttributeError | SystemExit

text \<open>\<open>d[k] = v\<close>: an existing key keeps its position, a new key goes to the end.\<close>

fun dict_set :: "'k \<Rightarrow> 'v \<Rightarrow> ('k \<times> 'v) list \<Rightarrow> ('k \<times> 'v) list" where
  "dict_set k v [] = [(k, v)]"
| "dict_set k v (p # d) = (if fst p = k then (k, v) # d else p # dict_set k v d)"

text \<open>\<open>d.update(e)\<close>, also \<open>{**d, **e}\<close> on a copy of \<open>d\<close>.\<close>

definition dict_update :: "('k \<times> 'v) list \<Rightarrow> ('k \<times> 'v) list \<Rightarrow> ('k \<times> 'v) list" where
  "dict_update d e = fold (\<lambda>p acc. dict_set (fst p) (snd p) acc) e d"

text \<open>\<open>d.get(k, default)\<close>.\<close>

definition dict_get :: "('k \<times> 'v) list \<Rightarrow> 'k \<Rightarrow> 'v \<Rightarrow> 'v" where
  "dict_get d k dflt = (case map_of d k of None \<Rightarrow> dflt | Some v \<Rightarrow> v)"

definition is_dict :: "('k \<times> 'v) list \<Rightarrow> bool" where
  "is_dict d = distinct (map fst d)"

fun isinstance_dict :: "json \<Rightarrow> bool" where
  "isinstance_dict (JDict d) = True"
| "isinstance_dict v = False"

section \<open>metadata\_io.py: the split metadata store\<close>

text \<open>
  \<open>index.json\<close>: the script reads and writes the entries \<open>categories\<close>, \<open>files\<close>,
  \<open>documented_strings\<close>, \<open>total_strings\<close> and \<open>last_updated\<close>; every other entry is carried
  along in \<open>index_rest\<close>. \<open>index.get('categories', {})\<close> makes an absent entry the empty dict.
\<close>

record index_json =
  categories :: "(string \<times> string list) list"
  files :: "(string \<times> string) list"
  documented_strings :: json
  total_strings :: json
  last_updated :: string
  index_rest :: pydict

text \<open>
  The files under the metadata directory, parsed, and the three caches of a \<open>MetadataIO\<close>
  instance. \<open>defaults_file\<close> holds \<open>data.get('defaults', {})\<close> of \<open>defaults.json\<close>;
  \<open>category_files c\<close> holds \<open>yaml.safe_load(f) or {}\<close> of \<open>c.yaml\<close>.
\<close>

record metadata_io =
  index_file :: "index_json option"
  defaults_file :: "pydict option"
  category_files :: "string \<Rightarrow> pydict option"
  cache_index :: "index_json option"
  cache_defaults :: "pydict option"
  category_cache :: "string \<Rightarrow> pydict option"

definition load_index :: "metadata_io \<Rightarrow> (error + index_json) \<times> metadata_io" where
  "load_index io =
     (case cache_index io of
        Some i \<Rightarrow> (Inr i, io)
      | None \<Rightarrow>
          (case index_file io of
             None \<Rightarrow> (Inl FileNotFoundError, io)
           | Some i \<Rightarrow> (Inr i, io\<lparr>cache_index := Some i\<rparr>)))"

definition load_defaults :: "metadata_io \<Rightarrow> pydict \<times> metadata_io" where
  "load_defaults io =
     (case cache_defaults io of
        Some d \<Rightarrow> (d, io)
      | None \<Rightarrow>
          (case defaults_file io of
             None \<Rightarrow> ([], io\<lparr>cache_defaults := Some []\<rparr>)
           | Some d \<Rightarrow> (d, io\<lparr>cache_defaults := Some d\<rparr>)))"

definition load_category_file :: "metadata_io \<Rightarrow> string \<Rightarrow> (error + pydict) \<times> metadata_io" where
  "load_category_file io category =
     (case category_cache io category of
        Some d \<Rightarrow> (Inr d, io)
      | None \<Rightarrow>
          (case category_files io category of
             None \<Rightarrow> (Inl FileNotFoundError, io)
           | Some d \<Rightarrow> (Inr d, io\<lparr>category_cache := (category_cache io)(category \<mapsto> d)\<rparr>)))"

text \<open>
  The first loop of \<open>_merge_with_defaults\<close>, over \<open>defaults.items()\<close>. Unpacking
  \<open>**metadata.get(key, {})\<close> raises \<open>TypeError\<close> when the record's value is not a dict.
\<close>

fun merge_defaults_loop :: "pydict \<Rightarrow> pydict \<Rightarrow> pydict \<Rightarrow> error + pydict" where
  "merge_defaults_loop [] metadata merged = Inr merged"
| "merge_defaults_loop ((key, default_value) # ds) metadata merged =
     (case default_value of
        JDict dd \<Rightarrow>
          (case dict_get metadata key (JDict []) of
             JDict md \<Rightarrow>
               merge_defaults_loop ds metadata (dict_set key (JDict (dict_update dd md)) merged)
           | _ \<Rightarrow> Inl TypeError)
      | _ \<Rightarrow>
          merge_defaults_loop ds metadata (dict_set key (dict_get metadata key default_value) merged))"

text \<open>The second loop, over \<open>metadata.items()\<close>.\<close>

fun merge_rest_loop :: "pydict \<Rightarrow> pydict \<Rightarrow> pydict" where
  "merge_rest_loop [] merged = merged"
| "merge_rest_loop ((key, val) # ms) merged =
     merge_rest_loop ms (if key \<in> fst ` set merged then merged else dict_set key val merged)"

text \<open>
  \<open>_merge_with_defaults\<close>: the defaults are loaded through the cache, then both loops
  run on a fresh \<open>merged\<close>. A record that is not a dict has neither \<open>get\<close> nor
  \<open>items\<close>: \<open>AttributeError\<close>.
\<close>

definition merge_record :: "pydict \<Rightarrow> json \<Rightarrow> error + pydict" where
  "merge_record defaults metadata =
     (case metadata of
        JDict m \<Rightarrow>
          (case merge_defaults_loop defaults m [] of
             Inl e \<Rightarrow> Inl e
           | Inr merged \<Rightarrow> Inr (merge_rest_loop m merged))
      | _ \<Rightarrow> Inl AttributeError)"

definition merge_with_defaults :: "metadata_io \<Rightarrow> json \<Rightarrow> (error + pydict) \<times> metadata_io" where
  "merge_with_defaults io metadata =
     (case load_defaults io of (defaults, io') \<Rightarrow> (merge_record defaults metadata, io'))"

text \<open>The scan of \<open>index['categories'].items()\<close> for the first category listing the key.\<close>

fun find_category :: "(string \<times> string list) list \<Rightarrow> string \<Rightarrow> string option" where
  "find_category [] string_key = None"
| "find_category ((cat, keys) # cs) string_key =
     (if string_key \<in> set keys then Some cat else find_category cs string_key)"

text \<open>
  \<open>get_string_metadata\<close>: \<open>Inr None\<close> is the returned \<open>None\<close>. \<open>category_data.get(key)\<close>
  is \<open>None\<close> for an absent key and for a key stored with the value null.
\<close>

definition get_string_metadata ::
  "metadata_io \<Rightarrow> string \<Rightarrow> (error + pydict option) \<times> metadata_io" where
  "get_string_metadata io string_key =
     (case load_index io of
        (Inl e, io1) \<Rightarrow> (Inl e, io1)
      | (Inr index, io1) \<Rightarrow>
          (case find_category (categories index) string_key of
             None \<Rightarrow> (Inr None, io1)
           | Some category \<Rightarrow>
               (case load_category_file io1 category of
                  (Inl e, io2) \<Rightarrow> (Inl e, io2)
                | (Inr category_data, io2) \<Rightarrow>
                    (case map_of category_data string_key of
                       None \<Rightarrow> (Inr None, io2)
                     | Some JNull \<Rightarrow> (Inr None, io2)
                     | Some string_metadata \<Rightarrow>
                         (case merge_with_defaults io2 string_metadata of
                            (Inl e, io3) \<Rightarrow> (Inl e, io3)
                          | (Inr merged, io3) \<Rightarrow> (Inr (Some merged), io3))))))"

text \<open>The loop of \<open>get_category_metadata\<close> over \<open>category_data.items()\<close>.\<close>

fun category_metadata_loop ::
  "metadata_io \<Rightarrow> pydict \<Rightarrow> (string \<times> pydict) list \<Rightarrow>
     (error + (string \<times> pydict) list) \<times> metadata_io" where
  "category_metadata_loop io [] result = (Inr result, io)"
| "category_metadata_loop io ((string_key, metadata) # rest) result =
     (case merge_with_defaults io metadata of
        (Inl e, io') \<Rightarrow> (Inl e, io')
      | (Inr merged, io') \<Rightarrow>
          category_metadata_loop io' rest (dict_set string_key merged result))"

definition get_category_metadata ::
  "metadata_io \<Rightarrow> string \<Rightarrow> (error + (string \<times> pydict) list) \<times> metadata_io" where
  "get_category_metadata io category =
     (case load_category_file io category of
        (Inl e, io1) \<Rightarrow> (Inl e, io1)
      | (Inr category_data, io1) \<Rightarrow> category_metadata_loop io1 category_data [])"

text \<open>The loop of \<open>get_all_metadata\<close> over the index's category names.\<close>

fun all_metadata_loop ::
  "metadata_io \<Rightarrow> string list \<Rightarrow> (string \<times> pydict) list \<Rightarrow>
     (error + (string \<times> pydict) list) \<times> metadata_io" where
  "all_metadata_loop io [] all_metadata = (Inr all_metadata, io)"
| "all_metadata_loop io (category # cs) all_metadata =
     (case get_category_metadata io category of
        (Inl e, io') \<Rightarrow> (Inl e, io')
      | (Inr category_metadata, io') \<Rightarrow>
          all_metadata_loop io' cs (dict_update all_metadata category_metadata))"

definition get_all_metadata ::
  "metadata_io \<Rightarrow> (error + (string \<times> pydict) list) \<times> metadata_io" where
  "get_all_metadata io =
     (case load_index io of
        (Inl e, io1) \<Rightarrow> (Inl e, io1)
      | (Inr index, io1) \<Rightarrow> all_metadata_loop io1 (map fst (categories index)) [])"

text \<open>
  \<open>yaml.dump(data, sort_keys=True)\<close> writes every mapping with its keys in sorted
  order, the nested ones too; reading the file back gives the mappings in that order.
\<close>

fun sort_keys :: "json \<Rightarrow> json" where
  "sort_keys (JDict d) = JDict (sort_key fst (map (\<lambda>p. (fst p, sort_keys (snd p))) d))"
| "sort_keys (JList xs) = JList (map sort_keys xs)"
| "sort_keys v = v"

definition yaml_dump :: "pydict \<Rightarrow> pydict" where
  "yaml_dump data = sort_key fst (map (\<lambda>p. (fst p, sort_keys (snd p))) data)"

text \<open>
  \<open>save_category\<close> rewrites one shard in full and drops that shard from the cache.
  \<open>save_index\<close> stamps the date, writes the index and clears the cached index.
\<close>

definition save_category :: "metadata_io \<Rightarrow> string \<Rightarrow> pydict \<Rightarrow> metadata_io" where
  "save_category io category data =
     io\<lparr>category_files := (category_files io)(category \<mapsto> yaml_dump data),
        category_cache := (category_cache io)(category := None)\<rparr>"

definition save_index :: "string \<Rightarrow> metadata_io \<Rightarrow> index_json \<Rightarrow> metadata_io" where
  "save_index today io index_data =
     io\<lparr>index_file := Some (index_data\<lparr>last_updated := today\<rparr>), cache_index := None\<rparr>"

text \<open>\<open>is_split_format\<close>: the metadata directory and its index exist.\<close>

definition is_split_format :: "metadata_io \<Rightarrow> bool" where
  "is_split_format io = (index_file io \<noteq> None)"

text \<open>
  What an instance reads: the cached document when there is one, the file otherwise.
  These views are used to state what a read returns.
\<close>

definition eff_index :: "metadata_io \<Rightarrow> index_json option" where
  "eff_index io = (case cache_index io of Some i \<Rightarrow> Some i | None \<Rightarrow> index_file io)"

definition eff_defaults :: "metadata_io \<Rightarrow> pydict" where
  "eff_defaults io =
     (case cache_defaults io of
        Some d \<Rightarrow> d
      | None \<Rightarrow> (case defaults_file io of None \<Rightarrow> [] | Some d \<Rightarrow> d))"

definition eff_shard :: "metadata_io \<Rightarrow> string \<Rightarrow> pydict option" where
  "eff_shard io category =
     (case category_cache io category of
        Some d \<Rightarrow> Some d
      | None \<Rightarrow> category_files io category)"

text \<open>A freshly constructed \<open>MetadataIO\<close> over given files: nothing cached.\<close>

definition create_metadata_io ::
  "index_json option \<Rightarrow> pydict option \<Rightarrow> (string \<Rightarrow> pydict option) \<Rightarrow> metadata_io" where
  "create_metadata_io idx dflt shards =
     \<lparr>index_file = idx, defaults_file = dflt, category_files = shards,
      cache_index = None, cache_defaults = None, category_cache = (\<lambda>c. None)\<rparr>"

section \<open>manage\_string\_metadata.py: the working set and its save\<close>

text \<open>
  \<open>StringMetadata\<close>: the attributes set by \<open>__init__\<close>. The data model makes
  \<open>category\<close> a string (\<open>''\<close> when the record has none); the field groups are kept as
  the documents they are.
\<close>

record string_metadata =
  sm_key :: string
  sm_category :: string
  sm_ui :: json
  sm_context :: json
  sm_purpose :: json
  sm_constraints :: json
  sm_translation_guidance :: json
  sm_references :: json
  sm_technical :: json

definition to_dict :: "string_metadata \<Rightarrow> pydict" where
  "to_dict meta =
     [(''category'', JStr (sm_category meta)),
      (''ui'', sm_ui meta),
      (''context'', sm_context meta),
      (''purpose'', sm_purpose meta),
      (''constraints'', sm_constraints meta),
      (''translation_guidance'', sm_translation_guidance meta),
      (''references'', sm_references meta),
      (''technical'', sm_technical meta)]"

text \<open>
  \<open>MetadataManager\<close>: the working set \<open>self.metadata\<close>, \<open>self.file_data\<close>, the
  \<open>MetadataIO\<close> instance (present when the metadata directory exists) and the legacy
  file \<open>strings_metadata.json\<close>.
\<close>

record metadata_manager =
  mm_metadata :: "(string \<times> string_metadata) list"
  mm_file_data :: pydict
  mm_io :: "metadata_io option"
  mm_legacy_file :: "pydict option"

definition add_metadata :: "metadata_manager \<Rightarrow> string \<Rightarrow> string_metadata \<Rightarrow> metadata_manager" where
  "add_metadata mgr k meta = mgr\<lparr>mm_metadata := dict_set k meta (mm_metadata mgr)\<rparr>"

definition remove_metadata :: "metadata_manager \<Rightarrow> string \<Rightarrow> metadata_manager" where
  "remove_metadata mgr k = mgr\<lparr>mm_metadata := filter (\<lambda>p. fst p \<noteq> k) (mm_metadata mgr)\<rparr>"

text \<open>
  The grouping loop of \<open>save\<close>: \<open>by_category[meta.category or 'uncategorized'][key] =
  meta.to_dict()\<close> on a \<open>defaultdict(dict)\<close>.
\<close>

fun group_by_category ::
  "(string \<times> string_metadata) list \<Rightarrow> (string \<times> pydict) list \<Rightarrow> (string \<times> pydict) list" where
  "group_by_category [] by_category = by_category"
| "group_by_category ((k, meta) # rest) by_category =
     (let category = (if sm_category meta = [] then ''uncategorized'' else sm_category meta)
      in group_by_category rest
           (dict_set category (dict_set k (JDict (to_dict meta)) (dict_get by_category category []))
              by_category))"

text \<open>
  The split-format branch of \<open>save\<close>: every category of \<open>by_category\<close> is written,
  then the index is loaded, its counts, \<open>categories\<close> and \<open>files\<close> are replaced and it is
  written. An exception leaves what was written so far and falls back to the legacy
  file.
\<close>

definition save_split ::
  "string \<Rightarrow> metadata_manager \<Rightarrow> metadata_io \<Rightarrow> (error + unit) \<times> metadata_manager" where
  "save_split today mgr io =
     (let by_category = group_by_category (mm_metadata mgr) [];
          io1 = fold (\<lambda>p acc. save_category acc (fst p) (snd p)) by_category io
      in case load_index io1 of
           (Inl e, io2) \<Rightarrow> (Inl e, mgr\<lparr>mm_io := Some io2\<rparr>)
         | (Inr index_data, io2) \<Rightarrow>
             (Inr (),
              mgr\<lparr>mm_io := Some (save_index today io2
                 (index_data\<lparr>
                    documented_strings := JInt (int (length (mm_metadata mgr))),
                    total_strings := dict_get (mm_file_data mgr) ''total_strings'' (JInt 0),
                    categories := map (\<lambda>p. (fst p, sort (map fst (snd p)))) by_category,
                    files := map (\<lambda>p. (fst p, ''metadata_divesms/'' @ fst p @ ''.yaml'')) by_category\<rparr>))\<rparr>))"

definition save_legacy :: "string \<Rightarrow> metadata_manager \<Rightarrow> metadata_manager" where
  "save_legacy today mgr =
     (let fd1 = dict_set ''last_updated'' (JStr today) (mm_file_data mgr);
          fd2 = dict_set ''documented_strings'' (JInt (int (length (mm_metadata mgr)))) fd1;
          strings_dict = fold (\<lambda>p acc. dict_set (fst p) (JDict (to_dict (snd p))) acc) (mm_metadata mgr) [];
          fd3 = dict_set ''strings'' (JDict strings_dict) fd2
      in mgr\<lparr>mm_file_data := fd3, mm_legacy_file := Some fd3\<rparr>)"

definition save :: "string \<Rightarrow> metadata_manager \<Rightarrow> metadata_manager" where
  "save today mgr =
     (case mm_io mgr of
        None \<Rightarrow> save_legacy today mgr
      | Some io \<Rightarrow>
          if is_split_format io then
            (case save_split today mgr io of
               (Inr u, mgr') \<Rightarrow> mgr'
             | (Inl e, mgr') \<Rightarrow> save_legacy today mgr')
          else save_legacy today mgr)"

section \<open>cleanup\_orphaned\_metadata.py: removing orphaned entries\<close>

text \<open>
  The script works on the files of the metadata directory (the fields \<open>index_file\<close> and
  \<open>category_files\<close>; it holds no cache) and on the \<open>name\<close> attributes of the
  \<open>string\<close> elements of \<open>strings.xml\<close> (\<open>None\<close>: the file does not exist). Every
  \<open>print\<close> is one \<open>out_line\<close>, with the values the line is formatted from.
\<close>

datatype out_line =
    Header bool
  | MetadataDirectory
  | StringsFile
  | Rule
  | StringsFileNotFound
  | NoOrphans
  | Found nat nat
  | CategoryLine string nat
  | KeyLine string
  | Blank
  | DryRunNotice
  | Removing
  | CategoryFileNotFound string
  | WouldRemove string
  | Removed string
  | UpdatedCategory string nat
  | UpdatedIndex
  | CleanupComplete nat

definition get_strings_from_xml :: "string list option \<Rightarrow> string set \<times> out_line list" where
  "get_strings_from_xml xml =
     (case xml of
        None \<Rightarrow> ({}, [StringsFileNotFound])
      | Some names \<Rightarrow> (set (filter (\<lambda>k. k \<noteq> []) names), []))"

text \<open>The loop of \<open>find_orphaned_metadata\<close> over \<open>index['categories'].items()\<close>.\<close>

fun find_orphaned_loop ::
  "string set \<Rightarrow> (string \<times> string list) list \<Rightarrow> (string \<times> string list) list \<Rightarrow>
     (string \<times> string list) list" where
  "find_orphaned_loop xml_strings [] orphaned_by_category = orphaned_by_category"
| "find_orphaned_loop xml_strings ((category, string_keys) # rest) orphaned_by_category =
     (let orphaned = filter (\<lambda>string_key. string_key \<notin> xml_strings) string_keys
      in find_orphaned_loop xml_strings rest
           (if orphaned \<noteq> [] then dict_set category orphaned orphaned_by_category
            else orphaned_by_category))"

definition find_orphaned_metadata ::
  "metadata_io \<Rightarrow> string list option \<Rightarrow> (error + (string \<times> string list) list) \<times> out_line list" where
  "find_orphaned_metadata fs xml =
     (case get_strings_from_xml xml of
        (xml_strings, out) \<Rightarrow>
          (case index_file fs of
             None \<Rightarrow> (Inl FileNotFoundError, out)
           | Some index \<Rightarrow> (Inr (find_orphaned_loop xml_strings (categories index) []), out)))"

text \<open>The inner loop of \<open>remove_orphaned_metadata\<close> over one category's orphaned keys.\<close>

fun remove_keys_loop ::
  "bool \<Rightarrow> string list \<Rightarrow> pydict \<Rightarrow> nat \<Rightarrow> out_line list \<Rightarrow> pydict \<times> nat \<times> out_line list" where
  "remove_keys_loop dry_run [] category_data removed_count out = (category_data, removed_count, out)"
| "remove_keys_loop dry_run (k # ks) category_data removed_count out =
     (if k \<in> fst ` set category_data then
        (if dry_run then
           remove_keys_loop dry_run ks category_data (removed_count + 1) (out @ [WouldRemove k])
         else
           remove_keys_loop dry_run ks (filter (\<lambda>p. fst p \<noteq> k) category_data)
             (removed_count + 1) (out @ [Removed k]))
      else remove_keys_loop dry_run ks category_data removed_count out)"

text \<open>The outer loop over \<open>orphaned_by_category.items()\<close>.\<close>

fun remove_categories_loop ::
  "bool \<Rightarrow> (string \<times> string list) list \<Rightarrow> metadata_io \<Rightarrow> nat \<Rightarrow> out_line list \<Rightarrow>
     metadata_io \<times> nat \<times> out_line list" where
  "remove_categories_loop dry_run [] fs total_removed out = (fs, total_removed, out)"
| "remove_categories_loop dry_run ((category, orphaned_keys) # rest) fs total_removed out =
     (case category_files fs category of
        None \<Rightarrow>
          remove_categories_loop dry_run rest fs total_removed (out @ [CategoryFileNotFound category])
      | Some category_data \<Rightarrow>
          (case remove_keys_loop dry_run orphaned_keys category_data 0 [] of
             (data', removed_count, out') \<Rightarrow>
               if removed_count > 0 \<and> \<not> dry_run then
                 remove_categories_loop dry_run rest
                   (fs\<lparr>category_files := (category_files fs)(category \<mapsto> yaml_dump data')\<rparr>)
                   (total_removed + removed_count)
                   (out @ out' @ [UpdatedCategory category removed_count])
               else
                 remove_categories_loop dry_run rest fs (total_removed + removed_count) (out @ out')))"

text \<open>
  The index update of the execute branch: each category loses its orphaned keys and is
  deleted when none is left.
\<close>

definition remove_from_index ::
  "string \<times> string list \<Rightarrow> (string \<times> string list) list \<Rightarrow> (string \<times> string list) list" where
  "remove_from_index p cats =
     (case map_of cats (fst p) of
        None \<Rightarrow> cats
      | Some string_keys \<Rightarrow>
          (let kept = filter (\<lambda>k. k \<notin> set (snd p)) string_keys
           in if kept = [] then filter (\<lambda>q. fst q \<noteq> fst p) cats
              else dict_set (fst p) kept cats))"

text \<open>
  \<open>remove_orphaned_metadata\<close>; \<open>mtime\<close> is the text of the script's modification time.
  \<open>index['metadata']['last_updated'] = \<dots>\<close> raises \<open>TypeError\<close> when the entry is not a
  dict; the shards are written by then.
\<close>

definition remove_orphaned_metadata ::
  "string \<Rightarrow> metadata_io \<Rightarrow> (string \<times> string list) list \<Rightarrow> bool \<Rightarrow>
     (error + nat) \<times> metadata_io \<times> out_line list" where
  "remove_orphaned_metadata mtime fs orphaned_by_category dry_run =
     (case remove_categories_loop dry_run orphaned_by_category fs 0 [] of
        (fs1, total_removed, out) \<Rightarrow>
          if dry_run then (Inr total_removed, fs1, out)
          else
            (case index_file fs1 of
               None \<Rightarrow> (Inl FileNotFoundError, fs1, out)
             | Some index \<Rightarrow>
                 (let cats = fold remove_from_index orphaned_by_category (categories index)
                  in case map_of (index_rest index) ''metadata'' of
                       None \<Rightarrow>
                         (Inr total_removed,
                          fs1\<lparr>index_file := Some (index\<lparr>categories := cats\<rparr>)\<rparr>,
                          out @ [UpdatedIndex])
                     | Some (JDict md) \<Rightarrow>
                         (Inr total_removed,
                          fs1\<lparr>index_file := Some (index\<lparr>categories := cats,
                             index_rest := dict_set ''metadata''
                               (JDict (dict_set ''last_updated'' (JStr mtime) md)) (index_rest index)\<rparr>)\<rparr>,
                          out @ [UpdatedIndex])
                     | Some other \<Rightarrow> (Inl TypeError, fs1, out))))"

text \<open>The summary \<open>main\<close> prints for the sorted categories and their sorted keys.\<close>

definition summary_lines :: "(string \<times> string list) list \<Rightarrow> out_line list" where
  "summary_lines orphaned_by_category =
     Found (sum_list (map (\<lambda>p. length (snd p)) orphaned_by_category)) (length orphaned_by_category)
     # concat (map (\<lambda>p. CategoryLine (fst p) (length (snd p)) # map KeyLine (sort (snd p)) @ [Blank])
                (sort_key fst orphaned_by_category))"

text \<open>
  \<open>main\<close>: \<open>argv\<close> is \<open>sys.argv\<close>. The result is the exception that ends the script, if
  any, the files as the script leaves them, and what it printed.
\<close>

definition main ::
  "string list \<Rightarrow> string \<Rightarrow> metadata_io \<Rightarrow> string list option \<Rightarrow>
     (error + unit) \<times> metadata_io \<times> out_line list" where
  "main argv mtime fs xml =
     (let dry_run = (''--execute'' \<notin> set argv);
          banner = [Header dry_run, MetadataDirectory, StringsFile, Rule]
      in case find_orphaned_metadata fs xml of
           (Inl e, out) \<Rightarrow> (Inl e, fs, banner @ out)
         | (Inr orphaned_by_category, out) \<Rightarrow>
             if orphaned_by_category = [] then (Inr (), fs, banner @ out @ [NoOrphans])
             else if dry_run then
               (Inr (), fs, banner @ out @ summary_lines orphaned_by_category @ [DryRunNotice])
             else
               (case remove_orphaned_metadata mtime fs orphaned_by_category False of
                  (Inl e, fs', out') \<Rightarrow>
                    (Inl e, fs', banner @ out @ summary_lines orphaned_by_category @ [Removing] @ out')
                | (Inr removed, fs', out') \<Rightarrow>
                    (Inr (), fs',
                     banner @ out @ summary_lines orphaned_by_category @ [Removing] @ out'
                       @ [CleanupComplete removed])))"

section \<open>translate\_with\_context.py: the translation session\<close>

text \<open>
  Texts are lists of characters; a character stands for its ASCII code. \<open>LOCALE_MAPPING\<close>
  is the table of the script; \<open>LOCALE_MAPPING.get(l, l)\<close> names the locale folder.
\<close>

definition LOCALE_MAPPING :: "(string \<times> string) list" where
  "LOCALE_MAPPING =
     [(''en'', ''en''), (''zh-CN'', ''zh-rCN''), (''zh-TW'', ''zh-rTW''), (''pt-BR'', ''pt-rBR''),
      (''hi'', ''hi''), (''es'', ''es''), (''ar'', ''ar''), (''id'', ''id''), (''bn'', ''bn''),
      (''ru'', ''ru''), (''ja'', ''ja''), (''de'', ''de''), (''fr'', ''fr''), (''ko'', ''ko''),
      (''tr'', ''tr''), (''vi'', ''vi''), (''it'', ''it''), (''th'', ''th''), (''pl'', ''pl''),
      (''uk'', ''uk'')]"

definition android_locale :: "string \<Rightarrow> string" where
  "android_locale api_locale = dict_get LOCALE_MAPPING api_locale api_locale"

subsection \<open>Escaping\<close>

text \<open>\<open>text.replace(c, s)\<close> for a single character \<open>c\<close>.\<close>

definition replace_char :: "char \<Rightarrow> string \<Rightarrow> string \<Rightarrow> string" where
  "replace_char c s text = concat (map (\<lambda>x. if x = c then s else [x]) text)"

definition escape_android_string :: "string \<Rightarrow> string" where
  "escape_android_string text =
     (if text = [] then text
      else
        (let t1 = replace_char (CHR 0x5C) [CHR 0x5C, CHR 0x5C] text;
             t2 = replace_char (CHR 0x27) [CHR 0x5C, CHR 0x27] t1;
             t3 = replace_char (CHR 0x22) [CHR 0x5C, CHR 0x22] t2
         in if t3 \<noteq> [] \<and> hd t3 = CHR 0x40 then CHR 0x5C # t3
            else if t3 \<noteq> [] \<and> hd t3 = CHR 0x3F then CHR 0x5C # t3
            else t3))"

subsection \<open>The two placeholder patterns\<close>

text \<open>
  \<open>\w\<close> on ASCII: letters, digits and the underscore. \<open>re.search(r'%\w+%', s)\<close> finds
  a percent sign, one or more word characters and a percent sign; a word character is
  never a percent sign, so at each percent sign the match is decided by the run of word
  characters that follows it.
\<close>

definition is_word :: "char \<Rightarrow> bool" where
  "is_word c =
     (let n = (of_char c :: nat)
      in (48 \<le> n \<and> n \<le> 57) \<or> (65 \<le> n \<and> n \<le> 90) \<or> (97 \<le> n \<and> n \<le> 122) \<or> n = 95)"

fun search_custom_placeholder :: "string \<Rightarrow> bool" where
  "search_custom_placeholder [] = False"
| "search_custom_placeholder (c # cs) =
     ((c = CHR 0x25 \<and> takeWhile is_word cs \<noteq> []
         \<and> dropWhile is_word cs \<noteq> [] \<and> hd (dropWhile is_word cs) = CHR 0x25)
      \<or> search_custom_placeholder cs)"

text \<open>
  \<open>len(re.findall(r'%[sdifgeoxX]', s))\<close>: the matches are taken from left to right, the
  scan going on behind each match.
\<close>

definition is_android_spec :: "char \<Rightarrow> bool" where
  "is_android_spec c = (c \<in> set ''sdifgeoxX'')"

fun count_android_specs :: "string \<Rightarrow> nat" where
  "count_android_specs (c # d # cs) =
     (if c = CHR 0x25 \<and> is_android_spec d then Suc (count_android_specs cs)
      else count_android_specs (d # cs))"
| "count_android_specs cs = 0"

definition has_custom_placeholders :: "string \<Rightarrow> bool" where
  "has_custom_placeholders v = (v \<noteq> [] \<and> search_custom_placeholder v)"

definition has_multiple_android_specs :: "string \<Rightarrow> bool" where
  "has_multiple_android_specs v = (v \<noteq> [] \<and> 2 \<le> count_android_specs v)"

subsection \<open>The locale files\<close>

text \<open>
  One \<open>string\<close> element of a \<open>values-<locale>/strings.xml\<close>: its \<open>name\<close> attribute
  (\<open>''\<close> when absent), its text (\<open>''\<close> when the element is empty) and whether it carries
  \<open>formatted="false"\<close>. A file that is there either parses to its \<open>string\<close> elements or
  makes \<open>ET.parse\<close> raise.
\<close>

record string_elem =
  el_name :: string
  el_text :: string
  el_formatted_false :: bool

datatype xml_doc = Malformed | Doc "string_elem list"

type_synonym res_dir = "string \<Rightarrow> xml_doc option"

text \<open>
  The translator: \<open>self.metadata\<close> (key to effective record), \<open>self.strings\<close> and
  \<open>self.target_languages\<close>.
\<close>

record translator =
  tr_metadata :: "(string \<times> pydict) list"
  tr_strings :: "(string \<times> string) list"
  tr_target_languages :: "string list"

text \<open>
  What the session depends on outside the script: whether the \<open>openai\<close> package and the
  API key are there, the answer of the service to a prompt (\<open>None\<close>: the call or the
  decoding of the answer raises), and the outcome of \<open>build_multilang_prompt\<close>, whose
  text no property here looks into (\<open>None\<close>: it raises).
\<close>

record environment =
  api_ready :: bool
  call_api :: "string \<Rightarrow> string \<Rightarrow> (string \<times> string) list option"
  build_multilang_prompt :: "string \<Rightarrow> string \<Rightarrow> pydict \<Rightarrow> string option"

text \<open>The log lines of the session and the keys handed to the service, in order.\<close>

datatype level = Info | Warning | Error

datatype event =
    CheckingExisting
  | CouldNotParse string
  | FoundTranslations nat nat nat
  | NoMetadataFound string
  | NoSourceText string
  | PromptBuildError string
  | DryRunPrompt string string
  | Translating string nat
  | ApiNotReady
  | ApiError string
  | MissingTranslations string "string list"
  | Completed string nat
  | TranslationFailed string
  | ForceMode nat nat
  | ResumeMode nat
  | TranslatingStrings nat nat
  | Processing nat nat string
  | CompletedSummary nat nat nat
  | SkippedSummary nat
  | FailedSummary "string list"
  | NoTranslationsToSave
  | CouldNotLoadExisting string
  | ErrorBuildingXml string
  | SavedLocale nat string
  | SavedSummary nat
  | FailedLocales "string list"

fun level_of :: "event \<Rightarrow> level" where
  "level_of (CouldNotParse f) = Warning"
| "level_of (NoMetadataFound k) = Warning"
| "level_of (NoSourceText k) = Warning"
| "level_of (MissingTranslations k ls) = Warning"
| "level_of (FailedSummary ks) = Warning"
| "level_of NoTranslationsToSave = Warning"
| "level_of (CouldNotLoadExisting l) = Warning"
| "level_of (FailedLocales ls) = Warning"
| "level_of (PromptBuildError k) = Error"
| "level_of ApiNotReady = Error"
| "level_of (ApiError k) = Error"
| "level_of (TranslationFailed k) = Error"
| "level_of (ErrorBuildingXml l) = Error"
| "level_of e = Info"

record session =
  log :: "event list"
  dispatched :: "string list"

definition logger :: "event \<Rightarrow> session \<Rightarrow> session" where
  "logger e s = s\<lparr>log := log s @ [e]\<rparr>"

subsection \<open>Resume scan\<close>

text \<open>
  \<open>load_existing_translations\<close>, first loop: per target locale, the elements with a
  name and a text are entered into \<open>translations_by_string[name][api_locale]\<close>.
\<close>

fun enter_elements ::
  "string \<Rightarrow> string_elem list \<Rightarrow> (string \<times> (string \<times> string) list) list \<Rightarrow>
     (string \<times> (string \<times> string) list) list" where
  "enter_elements api_locale [] tbs = tbs"
| "enter_elements api_locale (e # es) tbs =
     enter_elements api_locale es
       (if el_name e \<noteq> [] \<and> el_text e \<noteq> []
        then dict_set (el_name e) (dict_set api_locale (el_text e) (dict_get tbs (el_name e) [])) tbs
        else tbs)"

fun scan_locales ::
  "res_dir \<Rightarrow> string list \<Rightarrow> (string \<times> (string \<times> string) list) list \<Rightarrow> session \<Rightarrow>
     (string \<times> (string \<times> string) list) list \<times> session" where
  "scan_locales fs [] tbs s = (tbs, s)"
| "scan_locales fs (api_locale # ls) tbs s =
     (case fs (android_locale api_locale) of
        None \<Rightarrow> scan_locales fs ls tbs s
      | Some Malformed \<Rightarrow>
          scan_locales fs ls tbs (logger (CouldNotParse (android_locale api_locale)) s)
      | Some (Doc elems) \<Rightarrow> scan_locales fs ls (enter_elements api_locale elems tbs) s)"

text \<open>
  Second loop: a documented key is complete when the locales entered for it include
  every target language, incomplete when some are entered but not all.
\<close>

definition is_complete ::
  "string list \<Rightarrow> (string \<times> (string \<times> string) list) list \<Rightarrow> string \<Rightarrow> bool" where
  "is_complete targets tbs string_key =
     (case map_of tbs string_key of
        None \<Rightarrow> False
      | Some by_locale \<Rightarrow> set targets \<subseteq> fst ` set by_locale)"

definition load_existing_translations ::
  "translator \<Rightarrow> res_dir \<Rightarrow> session \<Rightarrow> (string list \<times> string list) \<times> session" where
  "load_existing_translations tr fs s =
     (case scan_locales fs (tr_target_languages tr) [] (logger CheckingExisting s) of
        (tbs, s1) \<Rightarrow>
          (let documented = map fst (tr_metadata tr);
               complete_strings = filter (is_complete (tr_target_languages tr) tbs) documented;
               incomplete_strings =
                 filter (\<lambda>k. map_of tbs k \<noteq> None \<and> \<not> is_complete (tr_target_languages tr) tbs k)
                   documented
           in ((complete_strings, incomplete_strings),
               logger (FoundTranslations (length complete_strings) (length incomplete_strings)
                         (length documented - length complete_strings - length incomplete_strings))
                 s1)))"

subsection \<open>Translating one key\<close>

text \<open>
  \<open>translate_with_openai_structured\<close>: without the package or the key the script calls
  \<open>sys.exit(1)\<close>; an exception of the call or of the decoding is logged and gives \<open>{}\<close>;
  an answer that lacks target languages is returned with a warning.
\<close>

definition translate_with_openai_structured ::
  "environment \<Rightarrow> translator \<Rightarrow> string \<Rightarrow> string \<Rightarrow> session \<Rightarrow>
     (error + (string \<times> string) list) \<times> session" where
  "translate_with_openai_structured env tr prompt string_key s =
     (if \<not> api_ready env then (Inl SystemExit, logger ApiNotReady s)
      else
        (let s1 = s\<lparr>dispatched := dispatched s @ [string_key]\<rparr>
         in case call_api env prompt string_key of
              None \<Rightarrow> (Inr [], logger (ApiError string_key) s1)
            | Some translations \<Rightarrow>
                (let missing = filter (\<lambda>l. l \<notin> fst ` set translations) (tr_target_languages tr)
                 in (Inr translations,
                     if missing \<noteq> [] then logger (MissingTranslations string_key missing) s1
                     else s1))))"

text \<open>
  \<open>translate_string\<close>. Every \<open>Exception\<close> is caught inside; \<open>SystemExit\<close> is not one
  and goes through.
\<close>

definition translate_string ::
  "environment \<Rightarrow> translator \<Rightarrow> string \<Rightarrow> bool \<Rightarrow> session \<Rightarrow>
     (error + (string \<times> string) list) \<times> session" where
  "translate_string env tr string_key dry_run s =
     (case map_of (tr_metadata tr) string_key of
        None \<Rightarrow> (Inr [], logger (NoMetadataFound string_key) s)
      | Some metadata \<Rightarrow>
          (let source_text = dict_get (tr_strings tr) string_key []
           in if source_text = [] then (Inr [], logger (NoSourceText string_key) s)
              else
                (case build_multilang_prompt env string_key source_text metadata of
                   None \<Rightarrow> (Inr [], logger (PromptBuildError string_key) s)
                 | Some prompt \<Rightarrow>
                     if dry_run then
                       (Inr (fold (\<lambda>lang acc. dict_set lang source_text acc) (tr_target_languages tr) []),
                        logger (DryRunPrompt string_key prompt) s)
                     else
                       (case translate_with_openai_structured env tr prompt string_key
                               (logger (Translating string_key (length (tr_target_languages tr))) s) of
                          (Inl e, s1) \<Rightarrow> (Inl e, s1)
                        | (Inr translations, s1) \<Rightarrow>
                            if translations \<noteq> [] then
                              (Inr translations,
                               logger (Completed string_key (length translations)) s1)
                            else (Inr [], logger (TranslationFailed string_key) s1)))))"

subsection \<open>The session\<close>

record run_state =
  all_translations :: "(string \<times> (string \<times> string) list) list"
  failed_keys :: "string list"
  skipped_keys :: "string list"

text \<open>The loop of \<open>translate_all\<close> over \<open>enumerate(keys_to_translate, 1)\<close>.\<close>

fun translate_keys ::
  "environment \<Rightarrow> translator \<Rightarrow> bool \<Rightarrow> nat \<Rightarrow> nat \<Rightarrow> string list \<Rightarrow> run_state \<Rightarrow> session \<Rightarrow>
     (error + run_state) \<times> session" where
  "translate_keys env tr dry_run i n [] st s = (Inr st, s)"
| "translate_keys env tr dry_run i n (k # ks) st s =
     (case translate_string env tr k dry_run (logger (Processing i n k) s) of
        (Inl e, s1) \<Rightarrow> (Inl e, s1)
      | (Inr translations, s1) \<Rightarrow>
          translate_keys env tr dry_run (Suc i) n ks
            (if translations \<noteq> []
             then st\<lparr>all_translations := dict_set k translations (all_translations st)\<rparr>
             else st\<lparr>failed_keys := failed_keys st @ [k]\<rparr>)
            s1)"

text \<open>The closing report of \<open>translate_all\<close>.\<close>

definition report :: "translator \<Rightarrow> run_state \<Rightarrow> session \<Rightarrow> session" where
  "report tr st s =
     (let s1 = logger (CompletedSummary (length (all_translations st))
                         (length (tr_target_languages tr))
                         (sum_list (map (\<lambda>p. length (snd p)) (all_translations st)))) s;
          s2 = (if skipped_keys st \<noteq> [] then logger (SkippedSummary (length (skipped_keys st))) s1
                else s1)
      in if failed_keys st \<noteq> [] then logger (FailedSummary (failed_keys st)) s2 else s2)"

text \<open>
  \<open>translate_all\<close>; \<open>specific_key\<close> is \<open>None\<close> or the key given with \<open>--string\<close> (an
  empty one counts as none). The result is the state the function ends with, which
  holds the returned \<open>all_translations\<close>.
\<close>

definition translate_all ::
  "environment \<Rightarrow> translator \<Rightarrow> res_dir \<Rightarrow> string option \<Rightarrow> bool \<Rightarrow> bool \<Rightarrow> session \<Rightarrow>
     (error + run_state) \<times> session" where
  "translate_all env tr fs specific_key dry_run force s =
     (let st0 = \<lparr>all_translations = [], failed_keys = [], skipped_keys = []\<rparr>
      in if specific_key \<noteq> None \<and> specific_key \<noteq> Some [] then
           (case translate_string env tr (the specific_key) dry_run s of
              (Inl e, s1) \<Rightarrow> (Inl e, s1)
            | (Inr translations, s1) \<Rightarrow>
                (let st = (if translations \<noteq> []
                           then st0\<lparr>all_translations := [(the specific_key, translations)]\<rparr>
                           else st0\<lparr>failed_keys := [the specific_key]\<rparr>)
                 in (Inr st, report tr st s1)))
         else
           (let documented_keys = map fst (tr_metadata tr)
            in case (if \<not> force \<and> \<not> dry_run then load_existing_translations tr fs s
                     else (([], []), s)) of
                 ((complete_strings, incomplete_strings), s1) \<Rightarrow>
                   (let keys_to_translate =
                          (if force then documented_keys
                           else filter (\<lambda>k. k \<notin> set complete_strings) documented_keys);
                        s2 = (if force
                              then logger (ForceMode (length documented_keys)
                                             (length (tr_target_languages tr))) s1
                              else logger (TranslatingStrings (length keys_to_translate)
                                             (length (tr_target_languages tr)))
                                     (if complete_strings \<noteq> []
                                      then logger (ResumeMode (length complete_strings)) s1
                                      else s1))
                    in case translate_keys env tr dry_run 1 (length keys_to_translate)
                              keys_to_translate st0 s2 of
                         (Inl e, s3) \<Rightarrow> (Inl e, s3)
                       | (Inr st, s3) \<Rightarrow>
                           (let st' = st\<lparr>skipped_keys := complete_strings\<rparr>
                            in (Inr st', report tr st' s3)))))"

subsection \<open>Writing the locale files\<close>

text \<open>The grouping loop of \<open>save_translations\<close>: \<open>by_locale[android_locale][string_key]\<close>.\<close>

fun group_locales ::
  "string \<Rightarrow> (string \<times> string) list \<Rightarrow> (string \<times> (string \<times> string) list) list \<Rightarrow>
     (string \<times> (string \<times> string) list) list" where
  "group_locales string_key [] by_locale = by_locale"
| "group_locales string_key ((api_locale, translation) # rest) by_locale =
     group_locales string_key rest
       (dict_set (android_locale api_locale)
          (dict_set string_key translation (dict_get by_locale (android_locale api_locale) []))
          by_locale)"

definition group_by_locale ::
  "(string \<times> (string \<times> string) list) list \<Rightarrow> (string \<times> (string \<times> string) list) list" where
  "group_by_locale all_tr = fold (\<lambda>p acc. group_locales (fst p) (snd p) acc) all_tr []"

text \<open>Loading the existing entries of one locale file: every named element, last one wins.\<close>

definition load_existing :: "string_elem list \<Rightarrow> (string \<times> string) list" where
  "load_existing elems =
     fold (\<lambda>e acc. if el_name e \<noteq> [] then dict_set (el_name e) (el_text e) acc else acc) elems []"

text \<open>Python truth of a document value, as in \<open>if technical.get('format_specifiers')\<close>.\<close>

fun truthy :: "json \<Rightarrow> bool" where
  "truthy JNull = False"
| "truthy (JBool b) = b"
| "truthy (JInt n) = (n \<noteq> 0)"
| "truthy (JStr s) = (s \<noteq> [])"
| "truthy (JList xs) = (xs \<noteq> [])"
| "truthy (JDict d) = (d \<noteq> [])"

text \<open>
  One \<open>string\<close> element as the XML loop builds it. \<open>technical.get\<close> raises when the
  record's \<open>technical\<close> entry is not a dict.
\<close>

definition build_element ::
  "translator \<Rightarrow> string \<Rightarrow> string \<Rightarrow> error + string_elem" where
  "build_element tr k v =
     (case (case map_of (tr_metadata tr) k of
              None \<Rightarrow> Inr False
            | Some record_k \<Rightarrow>
                (case dict_get record_k ''technical'' (JDict []) of
                   JDict technical \<Rightarrow> Inr (truthy (dict_get technical ''format_specifiers'' JNull))
                 | _ \<Rightarrow> Inl AttributeError)) of
        Inl e \<Rightarrow> Inl e
      | Inr by_metadata \<Rightarrow>
          Inr \<lparr>el_name = k, el_text = v,
               el_formatted_false =
                 (by_metadata \<or> has_custom_placeholders v \<or> has_multiple_android_specs v)\<rparr>)"

fun build_elements :: "translator \<Rightarrow> (string \<times> string) list \<Rightarrow> error + string_elem list" where
  "build_elements tr [] = Inr []"
| "build_elements tr ((k, v) # rest) =
     (case build_element tr k v of
        Inl e \<Rightarrow> Inl e
      | Inr el \<Rightarrow> (case build_elements tr rest of Inl e \<Rightarrow> Inl e | Inr els \<Rightarrow> Inr (el # els)))"

text \<open>
  The file as written. \<open>toprettyxml\<close> puts every \<open>string\<close> element on a line of its own
  with its text unchanged inside; the script then drops each line of the document that
  is blank after \<open>strip()\<close>. The first line of a text shares its line with the opening
  tag and the last one with the closing tag, so of a text exactly the blank lines
  strictly inside it are dropped.
\<close>

definition is_space :: "char \<Rightarrow> bool" where
  "is_space c = (let n = (of_char c :: nat) in (9 \<le> n \<and> n \<le> 13) \<or> (28 \<le> n \<and> n \<le> 32))"

fun split_lines :: "string \<Rightarrow> string list" where
  "split_lines [] = [[]]"
| "split_lines (c # cs) =
     (if c = CHR 0x0A then [] # split_lines cs
      else (case split_lines cs of l # ls \<Rightarrow> (c # l) # ls | [] \<Rightarrow> [[c]]))"

fun join_lines :: "string list \<Rightarrow> string" where
  "join_lines [] = []"
| "join_lines [l] = l"
| "join_lines (l # ls) = l @ CHR 0x0A # join_lines ls"

definition drop_blank_lines :: "string \<Rightarrow> string" where
  "drop_blank_lines text =
     (case split_lines text of
        [] \<Rightarrow> []
      | [l] \<Rightarrow> l
      | l # ls \<Rightarrow> join_lines (l # filter (\<lambda>x. \<not> list_all is_space x) (butlast ls) @ [last ls]))"

definition write_elements :: "string_elem list \<Rightarrow> xml_doc" where
  "write_elements els = Doc (map (\<lambda>e. e\<lparr>el_text := drop_blank_lines (el_text e)\<rparr>) els)"

text \<open>One pass of the loop of \<open>save_translations\<close> over \<open>by_locale.items()\<close>.\<close>

definition save_locale ::
  "translator \<Rightarrow> string \<Rightarrow> (string \<times> string) list \<Rightarrow> res_dir \<times> string list \<times> string list \<times> session \<Rightarrow>
     res_dir \<times> string list \<times> string list \<times> session" where
  "save_locale tr locale translations acc =
     (case acc of
        (fs, saved_locales, failed_locales, s) \<Rightarrow>
          (let (existing, s1) =
                 (case fs locale of
                    None \<Rightarrow> ([], s)
                  | Some Malformed \<Rightarrow> ([], logger (CouldNotLoadExisting locale) s)
                  | Some (Doc elems) \<Rightarrow> (load_existing elems, s));
               escaped_translations = map (\<lambda>p. (fst p, escape_android_string (snd p))) translations;
               merged = dict_update existing escaped_translations
           in case build_elements tr (sort_key fst merged) of
                Inl e \<Rightarrow>
                  (fs, saved_locales, failed_locales @ [locale], logger (ErrorBuildingXml locale) s1)
              | Inr els \<Rightarrow>
                  (fs(locale \<mapsto> write_elements els),
                   (if locale \<in> set saved_locales then saved_locales else saved_locales @ [locale]),
                   failed_locales,
                   logger (SavedLocale (length translations) locale) s1)))"

definition save_translations ::
  "translator \<Rightarrow> res_dir \<Rightarrow> (string \<times> (string \<times> string) list) list \<Rightarrow> session \<Rightarrow>
     res_dir \<times> session" where
  "save_translations tr fs all_tr s =
     (if all_tr = [] then (fs, logger NoTranslationsToSave s)
      else
        (case fold (\<lambda>p acc. save_locale tr (fst p) (snd p) acc) (group_by_locale all_tr)
                (fs, [], [], s) of
           (fs', saved_locales, failed_locales, s1) \<Rightarrow>
             (fs',
              (let s2 = logger (SavedSummary (length saved_locales)) s1
               in if failed_locales \<noteq> [] then logger (FailedLocales failed_locales) s2 else s2))))"

section \<open>Notions used to state the properties\<close>

text \<open>
  The record's group stored under a field name: \<open>metadata.get(k, {})\<close> when that is a
  dict. \<open>merge_field\<close> is the value one pass of the first merge loop stores under \<open>k\<close>.
\<close>

definition group_of :: "pydict \<Rightarrow> string \<Rightarrow> pydict" where
  "group_of m k = (case dict_get m k (JDict []) of JDict md \<Rightarrow> md | _ \<Rightarrow> [])"

definition merge_field :: "pydict \<Rightarrow> string \<Rightarrow> json \<Rightarrow> json" where
  "merge_field m k dv =
     (case dv of JDict dd \<Rightarrow> JDict (dict_update dd (group_of m k)) | _ \<Rightarrow> dict_get m k dv)"


text \<open>
  Two instance states show the same documents: reads only fill caches, and a filled
  cache returns what the file held.
\<close>

definition same_view :: "metadata_io \<Rightarrow> metadata_io \<Rightarrow> bool" where
  "same_view io io' \<longleftrightarrow>
     eff_index io' = eff_index io \<and> eff_defaults io' = eff_defaults io \<and> eff_shard io' = eff_shard io"

text \<open>The categories whose key list in the index contains a key, in index order.\<close>

definition listing_categories :: "(string \<times> string list) list \<Rightarrow> string \<Rightarrow> string list" where
  "listing_categories cats string_key = map fst (filter (\<lambda>p. string_key \<in> set (snd p)) cats)"

text \<open>
  For the cleanup script: the keys the index lists, the keys a shard file holds, the keys
  of an orphan report, the keys printed as list items (\<open>KeyLine\<close>) and the keys printed
  as acted upon (\<open>WouldRemove\<close> in a dry run, \<open>Removed\<close> otherwise).
  \<open>present_orphans\<close> are the reported keys that their category's shard file holds.
  \<open>metadata_entry_ok\<close>: the index has no \<open>metadata\<close> entry, or it is a dict.
\<close>

definition index_keys :: "metadata_io \<Rightarrow> string set" where
  "index_keys fs = (case index_file fs of None \<Rightarrow> {} | Some index \<Rightarrow> \<Union> (set ` snd ` set (categories index)))"

definition shard_keys :: "metadata_io \<Rightarrow> string \<Rightarrow> string set option" where
  "shard_keys fs category = map_option (\<lambda>d. fst ` set d) (category_files fs category)"

definition metadata_entry_ok :: "index_json \<Rightarrow> bool" where
  "metadata_entry_ok index =
     (case map_of (index_rest index) ''metadata'' of None \<Rightarrow> True | Some v \<Rightarrow> isinstance_dict v)"

definition orphans_of :: "(string \<times> string list) list \<Rightarrow> string set" where
  "orphans_of orphaned_by_category = \<Union> (set ` snd ` set orphaned_by_category)"

definition key_lines :: "out_line list \<Rightarrow> string set" where
  "key_lines out = {k. KeyLine k \<in> set out}"

definition acted_keys :: "bool \<Rightarrow> out_line list \<Rightarrow> string set" where
  "acted_keys dry_run out = {k. (if dry_run then WouldRemove k else Removed k) \<in> set out}"

definition present_orphans :: "metadata_io \<Rightarrow> (string \<times> string list) list \<Rightarrow> string set" where
  "present_orphans fs obc =
     {k. \<exists>c oks d. (c, oks) \<in> set obc \<and> category_files fs c = Some d \<and> k \<in> set oks \<and> k \<in> fst ` set d}"

subsection \<open>A small repository used for the concrete instances\<close>

definition ex_defaults :: pydict where
  "ex_defaults =
     [(''translation_guidance'', JDict [(''tone'', JStr ''neutral''), (''style'', JStr ''descriptive'')]),
      (''purpose'', JStr '''')]"

definition ex_record :: pydict where
  "ex_record =
     [(''category'', JStr ''a''),
      (''translation_guidance'', JDict [(''tone'', JStr ''formal'')])]"

definition ex_record2 :: pydict where
  "ex_record2 = [(''category'', JStr ''b''), (''purpose'', JStr ''title'')]"

definition ex_index :: index_json where
  "ex_index =
     \<lparr>categories = [(''a'', [''k1'']), (''b'', [''k2''])],
      files = [(''a'', ''metadata_divesms/a.yaml''), (''b'', ''metadata_divesms/b.yaml'')],
      documented_strings = JInt 2, total_strings = JInt 2, last_updated = ''2024-01-01'',
      index_rest = [(''version'', JStr ''1.0'')]\<rparr>"

definition ex_shards :: "string \<Rightarrow> pydict option" where
  "ex_shards =
     (\<lambda>c. if c = ''a'' then Some [(''k1'', JDict ex_record)]
          else if c = ''b'' then Some [(''k2'', JDict ex_record2)]
          else None)"

definition ex_io :: metadata_io where
  "ex_io = create_metadata_io (Some ex_index) (Some ex_defaults) ex_shards"

definition ex_io_bare :: metadata_io where
  "ex_io_bare = create_metadata_io (Some ex_index) None ex_shards"

text \<open>
  Two damaged repositories: in the first, shard \<open>b\<close> holds an entry for \<open>k1\<close> that the
  index lists under \<open>a\<close> only; in the second, \<open>k1\<close> is listed and stored under both
  categories. \<open>ex_io_nodup\<close> is the second one with shard \<open>a\<close> emptied.
\<close>

definition ex_stale :: pydict where
  "ex_stale = [(''category'', JStr ''b''), (''purpose'', JStr ''stale'')]"

definition ex_shards_dangling :: "string \<Rightarrow> pydict option" where
  "ex_shards_dangling =
     (\<lambda>c. if c = ''a'' then Some [(''k1'', JDict ex_record)]
          else if c = ''b'' then Some [(''k2'', JDict ex_record2), (''k1'', JDict ex_stale)]
          else None)"

definition ex_io_dangling :: metadata_io where
  "ex_io_dangling = create_metadata_io (Some ex_index) None ex_shards_dangling"

definition ex_index_dup :: index_json where
  "ex_index_dup = ex_index\<lparr>categories := [(''a'', [''k1'']), (''b'', [''k1'', ''k2''])]\<rparr>"

definition ex_shards_dup :: "string \<Rightarrow> pydict option" where
  "ex_shards_dup =
     (\<lambda>c. if c = ''a'' then Some [(''k1'', JDict ex_record)]
          else if c = ''b'' then Some [(''k1'', JDict ex_stale), (''k2'', JDict ex_record2)]
          else None)"

definition ex_shards_nodup :: "string \<Rightarrow> pydict option" where
  "ex_shards_nodup =
     (\<lambda>c. if c = ''a'' then Some []
          else if c = ''b'' then Some [(''k1'', JDict ex_stale), (''k2'', JDict ex_record2)]
          else None)"

definition ex_io_dup :: metadata_io where
  "ex_io_dup = create_metadata_io (Some ex_index_dup) None ex_shards_dup"

definition ex_io_nodup :: metadata_io where
  "ex_io_nodup = create_metadata_io (Some ex_index_dup) None ex_shards_nodup"

text \<open>Command lines and source strings for the cleanup script.\<close>

definition ex_argv_dry :: "string list" where
  "ex_argv_dry = [''cleanup_orphaned_metadata.py'']"

definition ex_argv_execute :: "string list" where
  "ex_argv_execute = [''cleanup_orphaned_metadata.py'', ''--execute'']"

definition ex_xml :: "string list option" where
  "ex_xml = Some [''k2'', ''k3'']"

text \<open>
  A working set of two documented strings over the example index, and the same working
  set after the category of \<open>k1\<close> was changed from \<open>a\<close> to \<open>b\<close>.
\<close>

definition ex_meta1 :: string_metadata where
  "ex_meta1 =
     \<lparr>sm_key = ''k1'', sm_category = ''a'', sm_ui = JDict [], sm_context = JDict [],
      sm_purpose = JStr ''title'', sm_constraints = JDict [],
      sm_translation_guidance = JDict [(''tone'', JStr ''formal'')],
      sm_references = JDict [], sm_technical = JDict []\<rparr>"

definition ex_meta2 :: string_metadata where
  "ex_meta2 = ex_meta1\<lparr>sm_key := ''k2'', sm_category := ''b'', sm_purpose := JStr ''button''\<rparr>"

definition ex_shards_mgr :: "string \<Rightarrow> pydict option" where
  "ex_shards_mgr =
     (\<lambda>c. if c = ''a'' then Some [(''k1'', JDict (to_dict ex_meta1))]
          else if c = ''b'' then Some [(''k2'', JDict (to_dict ex_meta2))]
          else None)"

definition ex_manager :: metadata_manager where
  "ex_manager =
     \<lparr>mm_metadata = [(''k1'', ex_meta1), (''k2'', ex_meta2)],
      mm_file_data = [(''total_strings'', JInt 2)],
      mm_io = Some (create_metadata_io (Some ex_index) None ex_shards_mgr),
      mm_legacy_file = None\<rparr>"

definition ex_manager_moved :: metadata_manager where
  "ex_manager_moved =
     ex_manager\<lparr>mm_metadata := [(''k1'', ex_meta1\<lparr>sm_category := ''b''\<rparr>), (''k2'', ex_meta2)]\<rparr>"

section \<open>Properties of the metadata store\<close>

subsection \<open>Dictionaries\<close>

lemma map_of_dict_set: "map_of (dict_set k v d) = (map_of d)(k \<mapsto> v)"
  by (induction d) auto

lemma keys_dict_set: "fst ` set (dict_set k v d) = insert k (fst ` set d)"
  by (induction d) auto

lemma is_dict_dict_set: "is_dict d \<Longrightarrow> is_dict (dict_set k v d)"
  unfolding is_dict_def
proof (induction d)
  case Nil
  then show ?case by simp
next
  case (Cons p d)
  have "fst ` set (dict_set k v d) = insert k (fst ` set d)" by (rule keys_dict_set)
  with Cons show ?case by (auto simp: image_iff)
qed

lemma dict_update_Cons: "dict_update d (p # e) = dict_update (dict_set (fst p) (snd p) d) e"
  by (simp add: dict_update_def)

lemma dict_update_Nil: "dict_update d [] = d"
  by (simp add: dict_update_def)

lemma map_of_dict_update: "is_dict e \<Longrightarrow> map_of (dict_update d e) = map_of d ++ map_of e"
proof (induction e arbitrary: d)
  case Nil
  then show ?case by (simp add: dict_update_Nil)
next
  case (Cons p e)
  obtain k v where p: "p = (k, v)" by (cases p)
  from Cons.prems have k: "k \<notin> fst ` set e" and e: "is_dict e"
    by (auto simp: is_dict_def p)
  have "dict_update d (p # e) = dict_update (dict_set k v d) e"
    by (simp add: dict_update_Cons p)
  then have "map_of (dict_update d (p # e)) = map_of (dict_set k v d) ++ map_of e"
    using Cons.IH[OF e] by simp
  also have "\<dots> = (map_of d)(k \<mapsto> v) ++ map_of e"
    by (simp only: map_of_dict_set)
  also have "\<dots> = map_of d ++ map_of (p # e)"
  proof (rule ext)
    fix x
    from k have "map_of e k = None" by (simp add: map_of_eq_None_iff)
    then show "((map_of d)(k \<mapsto> v) ++ map_of e) x = (map_of d ++ map_of (p # e)) x"
      by (auto simp: map_add_def p split: option.splits)
  qed
  finally show ?case .
qed

lemma is_dict_dict_update: "is_dict d \<Longrightarrow> is_dict (dict_update d e)"
  by (induction e arbitrary: d) (simp_all add: dict_update_Nil dict_update_Cons is_dict_dict_set)

lemma keys_dict_update: "fst ` set (dict_update d e) = fst ` set d \<union> fst ` set e"
  by (induction e arbitrary: d) (auto simp: dict_update_Nil dict_update_Cons keys_dict_set)



subsection \<open>The two merge loops\<close>

lemma merge_defaults_loop_step:
  "merge_defaults_loop ((k, dv) # ds) m acc =
     (if isinstance_dict dv \<and> \<not> isinstance_dict (dict_get m k (JDict [])) then Inl TypeError
      else merge_defaults_loop ds m (dict_set k (merge_field m k dv) acc))"
  by (cases dv; cases "dict_get m k (JDict [])") (simp_all add: merge_field_def group_of_def)


lemma merge_defaults_loop_keys:
  "merge_defaults_loop ds m acc = Inr merged \<Longrightarrow>
     fst ` set merged = fst ` set acc \<union> fst ` set ds"
proof (induction ds arbitrary: acc)
  case Nil
  then show ?case by simp
next
  case (Cons p ds)
  obtain k' dv where p: "p = (k', dv)" by (cases p)
  from Cons.prems(1) have run: "merge_defaults_loop ds m (dict_set k' (merge_field m k' dv) acc) = Inr merged"
    by (simp add: p merge_defaults_loop_step del: merge_defaults_loop.simps split: if_splits)
  show ?case using Cons.IH[OF run] by (auto simp: p keys_dict_set)
qed











subsection \<open>Merging a record over the defaults\<close>



subsection \<open>Reading one key when no defaults file exists\<close>



subsection \<open>Reads leave the documents as they are\<close>

lemma same_view_refl: "same_view io io"
  by (simp add: same_view_def)

lemma same_view_trans: "same_view io io1 \<Longrightarrow> same_view io1 io2 \<Longrightarrow> same_view io io2"
  by (simp add: same_view_def)

lemma load_defaults_view:
  "load_defaults io = (d, io') \<Longrightarrow> d = eff_defaults io \<and> same_view io io'"
  by (auto simp: load_defaults_def same_view_def eff_defaults_def eff_index_def eff_shard_def
      split: option.splits)

lemma merge_with_defaults_view:
  "merge_with_defaults io md = (r, io') \<Longrightarrow> r = merge_record (eff_defaults io) md \<and> same_view io io'"
  by (auto simp: merge_with_defaults_def split: prod.splits dest: load_defaults_view)

lemma load_index_view:
  "load_index io = (r, io') \<Longrightarrow>
     r = (case eff_index io of None \<Rightarrow> Inl FileNotFoundError | Some i \<Rightarrow> Inr i) \<and> same_view io io'"
  by (auto simp: load_index_def same_view_def eff_defaults_def eff_index_def eff_shard_def
      split: option.splits)

lemma load_category_file_view:
  "load_category_file io c = (r, io') \<Longrightarrow>
     r = (case eff_shard io c of None \<Rightarrow> Inl FileNotFoundError | Some d \<Rightarrow> Inr d) \<and> same_view io io'"
proof (cases "category_cache io c")
  case (Some d)
  assume "load_category_file io c = (r, io')"
  with Some show ?thesis
    by (simp add: load_category_file_def same_view_def eff_shard_def)
next
  case None
  assume run: "load_category_file io c = (r, io')"
  show ?thesis
  proof (cases "category_files io c")
    case no: None
    with None run show ?thesis
      by (simp add: load_category_file_def same_view_def eff_shard_def)
  next
    case (Some d)
    with None run have r: "r = Inr d"
      and io': "io' = io\<lparr>category_cache := (category_cache io)(c \<mapsto> d)\<rparr>"
      by (simp_all add: load_category_file_def)
    have "eff_shard io' c' = eff_shard io c'" for c'
      using None Some by (cases "c' = c"; cases "category_cache io c'") (simp_all add: io' eff_shard_def)
    then have "eff_shard io' = eff_shard io" by (rule ext)
    then show ?thesis
      using None Some
      by (simp add: r same_view_def)
        (simp add: io' eff_shard_def eff_index_def eff_defaults_def split: option.splits)
  qed
qed

lemma load_category_file_fst:
  "fst (load_category_file io c) = (case eff_shard io c of None \<Rightarrow> Inl FileNotFoundError | Some d \<Rightarrow> Inr d)"
  using load_category_file_view[of io c "fst (load_category_file io c)" "snd (load_category_file io c)"]
  by simp

lemma load_index_fst:
  "fst (load_index io) = (case eff_index io of None \<Rightarrow> Inl FileNotFoundError | Some i \<Rightarrow> Inr i)"
  using load_index_view[of io "fst (load_index io)" "snd (load_index io)"]
  by simp

lemma category_metadata_loop_view:
  "category_metadata_loop io items acc = (Inr res, io') \<Longrightarrow>
     same_view io io' \<and> fst ` set res = fst ` set acc \<union> fst ` set items \<and> (is_dict acc \<longrightarrow> is_dict res)"
proof (induction items arbitrary: io acc)
  case Nil
  then show ?case by (simp add: same_view_refl)
next
  case (Cons p items)
  obtain k md where p: "p = (k, md)" by (cases p)
  obtain r io1 where m: "merge_with_defaults io md = (r, io1)" by (cases "merge_with_defaults io md")
  from Cons.prems obtain merged where r: "r = Inr merged"
    and rest: "category_metadata_loop io1 items (dict_set k merged acc) = (Inr res, io')"
    by (cases r) (simp_all add: p m)
  from merge_with_defaults_view[OF m] have v: "same_view io io1" by simp
  from Cons.IH[OF rest] v show ?case
    by (auto simp: p keys_dict_set is_dict_dict_set intro: same_view_trans)
qed

lemma category_metadata_loop_other:
  "category_metadata_loop io items acc = (Inr res, io') \<Longrightarrow> k \<notin> fst ` set items \<Longrightarrow>
     map_of res k = map_of acc k"
proof (induction items arbitrary: io acc)
  case Nil
  then show ?case by simp
next
  case (Cons p items)
  obtain k' md where p: "p = (k', md)" by (cases p)
  obtain r io1 where m: "merge_with_defaults io md = (r, io1)" by (cases "merge_with_defaults io md")
  from Cons.prems(1) obtain merged where r: "r = Inr merged"
    and rest: "category_metadata_loop io1 items (dict_set k' merged acc) = (Inr res, io')"
    by (cases r) (simp_all add: p m)
  from Cons.prems(2) have "k \<noteq> k'" and "k \<notin> fst ` set items" by (auto simp: p)
  with Cons.IH[OF rest] show ?case by (simp add: map_of_dict_set)
qed

lemma category_metadata_loop_entry:
  "category_metadata_loop io items acc = (Inr res, io') \<Longrightarrow> is_dict items \<Longrightarrow>
     map_of items k = Some md \<Longrightarrow>
     \<exists>r. merge_record (eff_defaults io) md = Inr r \<and> map_of res k = Some r"
proof (induction items arbitrary: io acc)
  case Nil
  then show ?case by simp
next
  case (Cons p items)
  obtain k' md' where p: "p = (k', md')" by (cases p)
  obtain r io1 where m: "merge_with_defaults io md' = (r, io1)" by (cases "merge_with_defaults io md'")
  from Cons.prems(1) obtain merged where r: "r = Inr merged"
    and rest: "category_metadata_loop io1 items (dict_set k' merged acc) = (Inr res, io')"
    by (cases r) (simp_all add: p m)
  from merge_with_defaults_view[OF m] have mr: "merge_record (eff_defaults io) md' = Inr merged"
    and v: "eff_defaults io1 = eff_defaults io" by (simp_all add: r same_view_def)
  from Cons.prems(2) have nk: "k' \<notin> fst ` set items" and d: "is_dict items"
    by (auto simp: is_dict_def p)
  show ?case
  proof (cases "k = k'")
    case True
    with Cons.prems(3) have "md = md'" by (simp add: p)
    moreover have "map_of res k' = Some merged"
      using category_metadata_loop_other[OF rest nk] by (simp add: map_of_dict_set)
    ultimately show ?thesis using mr True by simp
  next
    case False
    with Cons.prems(3) have "map_of items k = Some md" by (simp add: p)
    from Cons.IH[OF rest d this] show ?thesis by (simp add: v)
  qed
qed

lemma get_category_metadata_view:
  assumes "get_category_metadata io c = (Inr cm, io')"
  shows "\<exists>shard. eff_shard io c = Some shard \<and> same_view io io' \<and> is_dict cm
           \<and> fst ` set cm = fst ` set shard
           \<and> (is_dict shard \<longrightarrow> (\<forall>k md. map_of shard k = Some md \<longrightarrow>
                 (\<exists>r. merge_record (eff_defaults io) md = Inr r \<and> map_of cm k = Some r)))"
proof -
  obtain r io1 where l: "load_category_file io c = (r, io1)" by (cases "load_category_file io c")
  from assms obtain shard where r: "r = Inr shard"
    and loop: "category_metadata_loop io1 shard [] = (Inr cm, io')"
    by (cases r) (simp_all add: get_category_metadata_def l)
  from load_category_file_view[OF l] have sh: "eff_shard io c = Some shard" and v: "same_view io io1"
    by (auto simp: r split: option.splits)
  from category_metadata_loop_view[OF loop] have v2: "same_view io1 io'"
    and keys: "fst ` set cm = fst ` set shard" and d: "is_dict cm"
    by (simp_all add: is_dict_def)
  have e: "\<exists>r. merge_record (eff_defaults io) md = Inr r \<and> map_of cm k = Some r"
    if "is_dict shard" "map_of shard k = Some md" for k md
    using category_metadata_loop_entry[OF loop that] v by (simp add: same_view_def)
  from sh same_view_trans[OF v v2] d keys e show ?thesis by blast
qed

lemma map_of_dict_update_other:
  "k \<notin> fst ` set e \<Longrightarrow> map_of (dict_update d e) k = map_of d k"
  by (induction e arbitrary: d) (auto simp: dict_update_Nil dict_update_Cons map_of_dict_set)

lemma all_metadata_loop_view:
  "all_metadata_loop io cs acc = (Inr res, io') \<Longrightarrow>
     same_view io io' \<and> (is_dict acc \<longrightarrow> is_dict res)"
proof (induction cs arbitrary: io acc)
  case Nil
  then show ?case by (simp add: same_view_refl)
next
  case (Cons c cs)
  obtain r io1 where g: "get_category_metadata io c = (r, io1)" by (cases "get_category_metadata io c")
  from Cons.prems obtain cm where r: "r = Inr cm"
    and rest: "all_metadata_loop io1 cs (dict_update acc cm) = (Inr res, io')"
    by (cases r) (simp_all add: g)
  from get_category_metadata_view[OF g[unfolded r]] have v: "same_view io io1" by blast
  from Cons.IH[OF rest] v show ?case
    by (auto simp: is_dict_dict_update intro: same_view_trans)
qed

lemma all_metadata_loop_other:
  "all_metadata_loop io cs acc = (Inr res, io') \<Longrightarrow>
     (\<forall>c \<in> set cs. \<forall>s. eff_shard io c = Some s \<longrightarrow> k \<notin> fst ` set s) \<Longrightarrow>
     map_of res k = map_of acc k"
proof (induction cs arbitrary: io acc)
  case Nil
  then show ?case by simp
next
  case (Cons c cs)
  obtain r io1 where g: "get_category_metadata io c = (r, io1)" by (cases "get_category_metadata io c")
  from Cons.prems(1) obtain cm where r: "r = Inr cm"
    and rest: "all_metadata_loop io1 cs (dict_update acc cm) = (Inr res, io')"
    by (cases r) (simp_all add: g)
  from get_category_metadata_view[OF g[unfolded r]] obtain shard where
    sh: "eff_shard io c = Some shard" and v: "same_view io io1" and keys: "fst ` set cm = fst ` set shard"
    by blast
  from Cons.prems(2) sh have "k \<notin> fst ` set cm" by (simp add: keys)
  moreover from Cons.prems(2) v have "\<forall>c \<in> set cs. \<forall>s. eff_shard io1 c = Some s \<longrightarrow> k \<notin> fst ` set s"
    by (simp add: same_view_def)
  ultimately show ?case using Cons.IH[OF rest] by (simp add: map_of_dict_update_other)
qed

lemma all_metadata_loop_last:
  "all_metadata_loop io (pre @ c # post) acc = (Inr res, io') \<Longrightarrow>
     eff_shard io c = Some shard \<Longrightarrow> is_dict shard \<Longrightarrow> map_of shard k = Some md \<Longrightarrow>
     (\<forall>c' \<in> set post. \<forall>s. eff_shard io c' = Some s \<longrightarrow> k \<notin> fst ` set s) \<Longrightarrow>
     \<exists>r. merge_record (eff_defaults io) md = Inr r \<and> map_of res k = Some r"
proof (induction pre arbitrary: io acc)
  case Nil
  obtain r io1 where g: "get_category_metadata io c = (r, io1)" by (cases "get_category_metadata io c")
  from Nil.prems(1) obtain cm where r: "r = Inr cm"
    and rest: "all_metadata_loop io1 post (dict_update acc cm) = (Inr res, io')"
    by (cases r) (simp_all add: g)
  from get_category_metadata_view[OF g[unfolded r]] Nil.prems(2,3,4) obtain rr where
    v: "same_view io io1" and d: "is_dict cm"
    and mr: "merge_record (eff_defaults io) md = Inr rr" and look: "map_of cm k = Some rr"
    by fastforce
  from Nil.prems(5) v have "\<forall>c' \<in> set post. \<forall>s. eff_shard io1 c' = Some s \<longrightarrow> k \<notin> fst ` set s"
    by (simp add: same_view_def)
  from all_metadata_loop_other[OF rest this] have "map_of res k = map_of (dict_update acc cm) k" .
  also have "\<dots> = Some rr" by (simp add: map_of_dict_update[OF d] look)
  finally show ?case using mr by simp
next
  case (Cons c0 pre)
  obtain r io1 where g: "get_category_metadata io c0 = (r, io1)" by (cases "get_category_metadata io c0")
  from Cons.prems(1) obtain cm where r: "r = Inr cm"
    and rest: "all_metadata_loop io1 (pre @ c # post) (dict_update acc cm) = (Inr res, io')"
    by (cases r) (simp_all add: g)
  from get_category_metadata_view[OF g[unfolded r]] have v: "same_view io io1" by blast
  then have e: "eff_shard io1 = eff_shard io" "eff_defaults io1 = eff_defaults io"
    by (simp_all add: same_view_def)
  from Cons.IH[OF rest] Cons.prems(2-5) show ?case by (simp add: e)
qed

lemma find_category_listing:
  "find_category cats k = (case listing_categories cats k of [] \<Rightarrow> None | c # _ \<Rightarrow> Some c)"
  by (induction cats k rule: find_category.induct) (simp_all add: listing_categories_def)

lemma listing_categories_subset: "set (listing_categories cats k) \<subseteq> fst ` set cats"
  by (auto simp: listing_categories_def)

lemma merge_with_defaults_fst:
  "fst (merge_with_defaults io md) = merge_record (eff_defaults io) md"
  using merge_with_defaults_view[of io md "fst (merge_with_defaults io md)" "snd (merge_with_defaults io md)"]
  by simp

lemma merge_record_JNull: "merge_record d JNull = Inl AttributeError"
  by (simp add: merge_record_def)

lemma get_string_metadata_found:
  assumes idx: "eff_index io = Some index"
    and cat: "find_category (categories index) k = Some c"
    and sh: "eff_shard io c = Some shard"
    and has: "map_of shard k = Some md"
    and mr: "merge_record (eff_defaults io) md = Inr r"
  shows "\<exists>io'. get_string_metadata io k = (Inr (Some r), io')"
proof -
  obtain ri io1 where l1: "load_index io = (ri, io1)" by (cases "load_index io")
  from load_index_view[OF l1] idx have ri: "ri = Inr index" and v1: "same_view io io1" by simp_all
  obtain rs io2 where l2: "load_category_file io1 c = (rs, io2)" by (cases "load_category_file io1 c")
  from load_category_file_view[OF l2] sh v1 have rs: "rs = Inr shard" and v2: "same_view io1 io2"
    by (simp_all add: same_view_def)
  obtain rm io3 where l3: "merge_with_defaults io2 md = (rm, io3)" by (cases "merge_with_defaults io2 md")
  from merge_with_defaults_view[OF l3] v1 v2 mr have rm: "rm = Inr r"
    by (simp add: same_view_def)
  from mr have nn: "md \<noteq> JNull" by (auto simp: merge_record_JNull)
  have "get_string_metadata io k = (Inr (Some r), io3)"
    using nn has l3[unfolded rm]
    by (cases md) (simp_all add: get_string_metadata_def l1 ri cat l2 rs)
  then show ?thesis by blast
qed

lemma get_all_metadata_last:
  assumes bulk: "get_all_metadata io = (Inr all, io')"
    and idx: "fst (load_index io) = Inr index"
    and sp: "map fst (categories index) = pre @ c # post"
    and sh: "fst (load_category_file io c) = Inr shard"
    and d: "is_dict shard"
    and has: "map_of shard k = Some md"
    and later: "\<forall>c' \<in> set post. \<forall>s. fst (load_category_file io c') = Inr s \<longrightarrow> k \<notin> fst ` set s"
  shows "is_dict all \<and> eff_index io = Some index \<and> eff_shard io c = Some shard
       \<and> (\<exists>r. merge_record (eff_defaults io) md = Inr r \<and> map_of all k = Some r)"
proof -
  obtain ri io1 where l1: "load_index io = (ri, io1)" by (cases "load_index io")
  from idx l1 have ri: "ri = Inr index" by simp
  from load_index_view[OF l1] have ei: "eff_index io = Some index" and v1: "same_view io io1"
    by (auto simp: ri split: option.splits)
  from bulk have loop: "all_metadata_loop io1 (pre @ c # post) [] = (Inr all, io')"
    by (simp add: get_all_metadata_def l1 ri sp)
  from sh have es: "eff_shard io c = Some shard"
    by (auto simp: load_category_file_fst split: option.splits)
  from later have l': "\<forall>c' \<in> set post. \<forall>s. eff_shard io1 c' = Some s \<longrightarrow> k \<notin> fst ` set s"
    using v1 by (auto simp: load_category_file_fst same_view_def split: option.splits)
  from v1 es have es1: "eff_shard io1 c = Some shard" by (simp add: same_view_def)
  from all_metadata_loop_last[OF loop es1 d has l'] v1
  have "\<exists>r. merge_record (eff_defaults io) md = Inr r \<and> map_of all k = Some r"
    by (simp add: same_view_def)
  moreover from all_metadata_loop_view[OF loop] have "is_dict all" by (simp add: is_dict_def)
  ultimately show ?thesis using ei es by blast
qed

subsection \<open>Evaluating the reads on the example repositories\<close>

lemmas read_defs =
  get_all_metadata_def get_string_metadata_def get_category_metadata_def load_index_def
  load_category_file_def load_defaults_def merge_with_defaults_def merge_record_def
  create_metadata_io_def dict_get_def dict_update_def

lemmas ex_defs =
  ex_io_def ex_io_bare_def ex_io_dangling_def ex_io_dup_def ex_io_nodup_def ex_index_def
  ex_index_dup_def ex_shards_def ex_shards_dangling_def ex_shards_dup_def ex_shards_nodup_def
  ex_defaults_def ex_record_def ex_record2_def ex_stale_def

lemma ex_io_all:
  "fst (get_all_metadata ex_io) =
     Inr [(''k1'', [(''translation_guidance'', JDict [(''tone'', JStr ''formal''), (''style'', JStr ''descriptive'')]),
                    (''purpose'', JStr []), (''category'', JStr ''a'')]),
          (''k2'', [(''translation_guidance'', JDict [(''tone'', JStr ''neutral''), (''style'', JStr ''descriptive'')]),
                    (''purpose'', JStr ''title''), (''category'', JStr ''b'')])]"
  by (simp add: read_defs ex_defs)

lemma ex_io_dup_all:
  "fst (get_all_metadata ex_io_dup) = Inr [(''k1'', ex_stale), (''k2'', ex_record2)]"
  by (simp add: read_defs ex_defs)

subsection \<open>Single read against bulk read\<close>

text \<open>
  Claim C3, as stated, fails. In \<open>ex_io_dangling\<close> every key of the index is listed
  under exactly one category and that category's shard holds it; shard \<open>b\<close> also holds
  an entry for \<open>k1\<close>. \<open>get_string_metadata\<close> returns the record of shard \<open>a\<close>,
  \<open>get_all_metadata\<close> the one of shard \<open>b\<close>.
\<close>

theorem single_bulk_read_counterexample:
  "fst (load_index ex_io_dangling) = Inr ex_index
   \<and> concat (map snd (categories ex_index)) = [''k1'', ''k2'']
   \<and> listing_categories (categories ex_index) ''k1'' = [''a'']
   \<and> listing_categories (categories ex_index) ''k2'' = [''b'']
   \<and> fst (load_category_file ex_io_dangling ''a'') = Inr [(''k1'', JDict ex_record)]
   \<and> fst (load_category_file ex_io_dangling ''b'')
        = Inr [(''k2'', JDict ex_record2), (''k1'', JDict ex_stale)]
   \<and> fst (get_string_metadata ex_io_dangling ''k1'') = Inr (Some ex_record)
   \<and> fst (get_all_metadata ex_io_dangling) = Inr [(''k1'', ex_stale), (''k2'', ex_record2)]
   \<and> ex_record \<noteq> ex_stale"
  by (simp add: read_defs ex_defs listing_categories_def)

text \<open>
  Claim C3, amended. Let the key \<open>k\<close> be listed in the index under the category \<open>c\<close>
  and no other, let shard \<open>c\<close> hold an entry for \<open>k\<close>, and let no other category of the
  index hold one in its shard. Whenever \<open>get_all_metadata\<close> returns,
  \<open>get_string_metadata\<close> returns for \<open>k\<close> the very record that the bulk result holds
  under \<open>k\<close>.
\<close>

theorem single_bulk_read_consistency:
  assumes idx: "fst (load_index io) = Inr index"
    and one: "listing_categories (categories index) k = [c]"
    and sh: "fst (load_category_file io c) = Inr shard"
    and d: "is_dict shard"
    and has: "map_of shard k = Some md"
    and others: "\<forall>c' \<in> fst ` set (categories index). c' \<noteq> c \<longrightarrow>
                   (\<forall>s. fst (load_category_file io c') = Inr s \<longrightarrow> k \<notin> fst ` set s)"
    and bulk: "get_all_metadata io = (Inr all, io2)"
  shows "\<exists>r io1. get_string_metadata io k = (Inr (Some r), io1) \<and> map_of all k = Some r"
proof -
  from one have "c \<in> set (listing_categories (categories index) k)" by simp
  with listing_categories_subset have "c \<in> set (map fst (categories index))" by fastforce
  from split_list_last[OF this] obtain pre post where
    sp: "map fst (categories index) = pre @ c # post" and np: "c \<notin> set post"
    by blast
  have later: "\<forall>c' \<in> set post. \<forall>s. fst (load_category_file io c') = Inr s \<longrightarrow> k \<notin> fst ` set s"
  proof
    fix c' assume c': "c' \<in> set post"
    with np have "c' \<noteq> c" by auto
    moreover from c' sp have "c' \<in> fst ` set (categories index)"
      by (metis Un_iff list.set_intros(2) set_append set_map)
    ultimately show "\<forall>s. fst (load_category_file io c') = Inr s \<longrightarrow> k \<notin> fst ` set s"
      using others by blast
  qed
  from get_all_metadata_last[OF bulk idx sp sh d has later] obtain r where
    ei: "eff_index io = Some index" and es: "eff_shard io c = Some shard"
    and mr: "merge_record (eff_defaults io) md = Inr r" and look: "map_of all k = Some r"
    by blast
  from one have cat: "find_category (categories index) k = Some c"
    by (simp add: find_category_listing)
  from get_string_metadata_found[OF ei cat es has mr] look show ?thesis by blast
qed

theorem single_bulk_read_consistency_witness:
  "fst (load_index ex_io) = Inr ex_index
   \<and> listing_categories (categories ex_index) ''k1'' = [''a'']
   \<and> fst (load_category_file ex_io ''a'') = Inr [(''k1'', JDict ex_record)]
   \<and> is_dict [(''k1'', JDict ex_record)]
   \<and> (\<exists>all io2 r io1. get_all_metadata ex_io = (Inr all, io2)
         \<and> get_string_metadata ex_io ''k1'' = (Inr (Some r), io1) \<and> map_of all ''k1'' = Some r)"
proof -
  let ?shard = "[(''k1'', JDict ex_record)]"
  have h1: "fst (load_index ex_io) = Inr ex_index"
    by (simp add: read_defs ex_defs)
  have h2: "listing_categories (categories ex_index) ''k1'' = [''a'']"
    by (simp add: listing_categories_def ex_defs)
  have h3: "fst (load_category_file ex_io ''a'') = Inr ?shard"
    by (simp add: read_defs ex_defs)
  have h4: "is_dict ?shard"
    by (simp add: is_dict_def)
  have h5: "map_of ?shard ''k1'' = Some (JDict ex_record)"
    by simp
  have h6: "\<forall>c' \<in> fst ` set (categories ex_index). c' \<noteq> ''a'' \<longrightarrow>
              (\<forall>s. fst (load_category_file ex_io c') = Inr s \<longrightarrow> ''k1'' \<notin> fst ` set s)"
    by (auto simp: read_defs ex_defs)
  obtain ra io2 where run: "get_all_metadata ex_io = (ra, io2)"
    by (cases "get_all_metadata ex_io")
  with ex_io_all obtain all where h7: "get_all_metadata ex_io = (Inr all, io2)"
    by simp
  from single_bulk_read_consistency[OF h1 h2 h3 h4 h5 h6 h7] h1 h2 h3 h4 h7
  show ?thesis by blast
qed

subsection \<open>One key stored under two categories\<close>

text \<open>
  Claim C5, as stated, fails. In \<open>ex_io_dup\<close> the key \<open>k1\<close> is stored in the shards of
  \<open>a\<close> and of \<open>b\<close> with different records. \<open>get_all_metadata\<close> returns one entry for
  \<open>k1\<close>, holding the record of \<open>b\<close>; the record of \<open>a\<close> is overwritten and what is
  returned is what the repository with shard \<open>a\<close> emptied returns: the duplicate leaves
  no trace in the result, and the module has no other channel to report it.
\<close>

theorem get_all_metadata_duplicate_counterexample:
  "fst (load_category_file ex_io_dup ''a'') = Inr [(''k1'', JDict ex_record)]
   \<and> fst (load_category_file ex_io_dup ''b'')
        = Inr [(''k1'', JDict ex_stale), (''k2'', JDict ex_record2)]
   \<and> ex_record \<noteq> ex_stale
   \<and> fst (get_all_metadata ex_io_dup) = Inr [(''k1'', ex_stale), (''k2'', ex_record2)]
   \<and> fst (load_category_file ex_io_nodup ''a'') = Inr []
   \<and> fst (get_all_metadata ex_io_nodup) = fst (get_all_metadata ex_io_dup)"
  by (simp add: read_defs ex_defs)

text \<open>
  Claim C5, amended. Whenever \<open>get_all_metadata\<close> returns, its result has one entry per
  key, and a key stored in the shards of several categories of the index carries the
  merged record of the one listed last among them: the later category overwrites the
  earlier ones, and nothing is reported.
\<close>

theorem get_all_metadata_last_wins:
  assumes bulk: "get_all_metadata io = (Inr all, io')"
    and idx: "fst (load_index io) = Inr index"
    and sp: "map fst (categories index) = pre @ c # post"
    and sh: "fst (load_category_file io c) = Inr shard"
    and d: "is_dict shard"
    and has: "map_of shard k = Some md"
    and later: "\<forall>c' \<in> set post. \<forall>s. fst (load_category_file io c') = Inr s \<longrightarrow> k \<notin> fst ` set s"
  shows "is_dict all \<and> (\<exists>r. fst (merge_with_defaults io md) = Inr r \<and> map_of all k = Some r)"
  using get_all_metadata_last[OF assms] by (simp add: merge_with_defaults_fst)

theorem get_all_metadata_last_wins_witness:
  "fst (load_index ex_io_dup) = Inr ex_index_dup
   \<and> map fst (categories ex_index_dup) = [''a''] @ ''b'' # []
   \<and> fst (load_category_file ex_io_dup ''b'')
        = Inr [(''k1'', JDict ex_stale), (''k2'', JDict ex_record2)]
   \<and> is_dict [(''k1'', JDict ex_stale), (''k2'', JDict ex_record2)]
   \<and> (\<exists>all io'. get_all_metadata ex_io_dup = (Inr all, io') \<and> is_dict all
         \<and> fst (merge_with_defaults ex_io_dup (JDict ex_stale)) = Inr ex_stale
         \<and> map_of all ''k1'' = Some ex_stale)"
proof -
  let ?shard = "[(''k1'', JDict ex_stale), (''k2'', JDict ex_record2)]"
  have h2: "fst (load_index ex_io_dup) = Inr ex_index_dup"
    by (simp add: read_defs ex_defs)
  have h3: "map fst (categories ex_index_dup) = [''a''] @ ''b'' # []"
    by (simp add: ex_defs)
  have h4: "fst (load_category_file ex_io_dup ''b'') = Inr ?shard"
    by (simp add: read_defs ex_defs)
  have h5: "is_dict ?shard"
    by (simp add: is_dict_def)
  have h6: "map_of ?shard ''k1'' = Some (JDict ex_stale)"
    by simp
  have h7: "\<forall>c' \<in> set []. \<forall>s. fst (load_category_file ex_io_dup c') = Inr s \<longrightarrow> ''k1'' \<notin> fst ` set s"
    by simp
  obtain ra io' where run: "get_all_metadata ex_io_dup = (ra, io')"
    by (cases "get_all_metadata ex_io_dup")
  with ex_io_dup_all obtain all where h1: "get_all_metadata ex_io_dup = (Inr all, io')"
    by simp
  have m: "fst (merge_with_defaults ex_io_dup (JDict ex_stale)) = Inr ex_stale"
    by (simp add: read_defs ex_defs)
  from get_all_metadata_last_wins[OF h1 h2 h3 h4 h5 h6 h7] m
  have "is_dict all \<and> map_of all ''k1'' = Some ex_stale"
    by auto
  with h1 h2 h3 h4 h5 m show ?thesis by blast
qed

section \<open>Properties of the cleanup script\<close>

subsection \<open>The orphan report\<close>

lemma find_orphaned_loop_lookup:
  "is_dict cats \<Longrightarrow>
   map_of (find_orphaned_loop X cats acc) c =
     (case map_of cats c of
        None \<Rightarrow> map_of acc c
      | Some ks \<Rightarrow> if filter (\<lambda>k. k \<notin> X) ks \<noteq> [] then Some (filter (\<lambda>k. k \<notin> X) ks) else map_of acc c)"
proof (induction cats arbitrary: acc)
  case Nil
  then show ?case by simp
next
  case (Cons p cats)
  obtain c' ks where p: "p = (c', ks)" by (cases p)
  from Cons.prems have nk: "c' \<notin> fst ` set cats" and d: "is_dict cats"
    by (auto simp: is_dict_def p)
  from nk have none: "map_of cats c' = None" by (simp add: map_of_eq_None_iff)
  show ?case
    using none by (auto simp: p Cons.IH[OF d] Let_def map_of_dict_set split: option.splits)
qed

lemma find_orphaned_loop_is_dict:
  "is_dict acc \<Longrightarrow> is_dict (find_orphaned_loop X cats acc)"
  by (induction cats arbitrary: acc) (auto simp: Let_def is_dict_dict_set)

lemma orphans_of_map_of:
  "is_dict obc \<Longrightarrow> orphans_of obc = {k. \<exists>c ks. map_of obc c = Some ks \<and> k \<in> set ks}"
  by (force simp: orphans_of_def is_dict_def)

lemma keys_union_map_of:
  "is_dict cats \<Longrightarrow> \<Union> (set ` snd ` set cats) = {k. \<exists>c ks. map_of cats c = Some ks \<and> k \<in> set ks}"
  by (force simp: is_dict_def)

lemma orphans_of_find:
  assumes "is_dict cats"
  shows "orphans_of (find_orphaned_loop X cats []) = \<Union> (set ` snd ` set cats) - X"
proof -
  have d: "is_dict (find_orphaned_loop X cats [])"
    by (rule find_orphaned_loop_is_dict) (simp add: is_dict_def)
  have look: "map_of (find_orphaned_loop X cats []) c =
      (case map_of cats c of None \<Rightarrow> None
       | Some ks \<Rightarrow> if filter (\<lambda>k. k \<notin> X) ks \<noteq> [] then Some (filter (\<lambda>k. k \<notin> X) ks) else None)" for c
    using find_orphaned_loop_lookup[OF assms, of X "[]" c] by (simp split: option.splits)
  show ?thesis
    unfolding orphans_of_map_of[OF d] keys_union_map_of[OF assms]
  proof (intro set_eqI iffI)
    fix k
    assume "k \<in> {k. \<exists>c ks. map_of (find_orphaned_loop X cats []) c = Some ks \<and> k \<in> set ks}"
    then obtain c ks where "map_of (find_orphaned_loop X cats []) c = Some ks" "k \<in> set ks" by blast
    then show "k \<in> {k. \<exists>c ks. map_of cats c = Some ks \<and> k \<in> set ks} - X"
      by (fastforce simp: look split: option.splits if_splits)
  next
    fix k
    assume "k \<in> {k. \<exists>c ks. map_of cats c = Some ks \<and> k \<in> set ks} - X"
    then obtain c ks where c: "map_of cats c = Some ks" and k: "k \<in> set ks" "k \<notin> X" by blast
    then have "k \<in> set (filter (\<lambda>k. k \<notin> X) ks)" by simp
    then have ne: "filter (\<lambda>k. k \<notin> X) ks \<noteq> []" by (metis empty_iff list.set(1))
    have "map_of (find_orphaned_loop X cats []) c = Some (filter (\<lambda>k. k \<notin> X) ks)"
      using ne by (simp add: look c)
    with k show "k \<in> {k. \<exists>c ks. map_of (find_orphaned_loop X cats []) c = Some ks \<and> k \<in> set ks}"
      by force
  qed
qed

lemma key_lines_append: "key_lines (a @ b) = key_lines a \<union> key_lines b"
  by (auto simp: key_lines_def)

lemma key_lines_summary: "key_lines (summary_lines obc) = orphans_of obc"
proof -
  have "key_lines (concat (map (\<lambda>p. CategoryLine (fst p) (length (snd p)) # map KeyLine (sort (snd p)) @ [Blank]) xs))
          = \<Union> (set ` snd ` set xs)" for xs :: "(string \<times> string list) list"
    by (induction xs) (auto simp: key_lines_def)
  from this[of "sort_key fst obc"] show ?thesis
    by (auto simp: summary_lines_def key_lines_def orphans_of_def)
qed

lemma remove_keys_loop_dry:
  "remove_keys_loop True ks d n out = (d', n', out') \<Longrightarrow> d' = d"
  by (induction ks arbitrary: n out) (auto split: if_splits)

lemma remove_categories_loop_dry:
  "remove_categories_loop True obc fs n out = (fs', n', out') \<Longrightarrow> fs' = fs"
proof (induction obc arbitrary: n out)
  case Nil
  then show ?case by simp
next
  case (Cons p obc)
  obtain c ks where p: "p = (c, ks)" by (cases p)
  show ?case
  proof (cases "category_files fs c")
    case None
    with Cons show ?thesis by (simp add: p)
  next
    case (Some d)
    obtain d' rc o' where r: "remove_keys_loop True ks d 0 [] = (d', rc, o')"
      by (cases "remove_keys_loop True ks d 0 []")
    with Cons Some show ?thesis by (simp add: p)
  qed
qed

subsection \<open>Removing from the shards and from the index\<close>

lemma map_of_filter_neq:
  "map_of (filter (\<lambda>q. fst q \<noteq> c) cats) c' = (if c' = c then None else map_of cats c')"
  by (induction cats) auto

lemma is_dict_filter: "is_dict d \<Longrightarrow> is_dict (filter P d)"
  by (simp add: is_dict_def distinct_map_filter)

lemma remove_from_index_is_dict: "is_dict cats \<Longrightarrow> is_dict (remove_from_index p cats)"
  by (auto simp: remove_from_index_def Let_def is_dict_filter is_dict_dict_set split: option.splits)

lemma remove_from_index_lookup:
  "map_of (remove_from_index p cats) c =
     (if c = fst p then
        (case map_of cats c of
           None \<Rightarrow> None
         | Some ks \<Rightarrow> if filter (\<lambda>k. k \<notin> set (snd p)) ks = [] then None
                     else Some (filter (\<lambda>k. k \<notin> set (snd p)) ks))
      else map_of cats c)"
  by (auto simp: remove_from_index_def Let_def map_of_filter_neq map_of_dict_set split: option.splits)

lemma fold_remove_from_index_is_dict:
  "is_dict cats \<Longrightarrow> is_dict (fold remove_from_index obc cats)"
  by (induction obc arbitrary: cats) (simp_all add: remove_from_index_is_dict)

lemma fold_remove_from_index_lookup:
  "is_dict obc \<Longrightarrow>
   map_of (fold remove_from_index obc cats) c =
     (case map_of obc c of
        None \<Rightarrow> map_of cats c
      | Some oks \<Rightarrow>
          (case map_of cats c of
             None \<Rightarrow> None
           | Some ks \<Rightarrow> if filter (\<lambda>k. k \<notin> set oks) ks = [] then None
                       else Some (filter (\<lambda>k. k \<notin> set oks) ks)))"
proof (induction obc arbitrary: cats)
  case Nil
  then show ?case by simp
next
  case (Cons p obc)
  obtain c' oks where p: "p = (c', oks)" by (cases p)
  from Cons.prems have nk: "c' \<notin> fst ` set obc" and d: "is_dict obc"
    by (auto simp: is_dict_def p)
  from nk have none: "map_of obc c' = None" by (simp add: map_of_eq_None_iff)
  show ?case
  proof (cases "c = c'")
    case True
    with none have nc: "map_of obc c = None" by simp
    from True have p': "p = (c, oks)" by (simp add: p)
    show ?thesis
      by (simp add: p' Cons.IH[OF d] nc remove_from_index_lookup split: option.splits)
  next
    case False
    then show ?thesis
      by (simp add: p Cons.IH[OF d] remove_from_index_lookup split: option.splits)
  qed
qed

lemma remove_keys_loop_result:
  "remove_keys_loop dry ks d n out = (d', n', out') \<Longrightarrow>
     fst ` set d' = (if dry then fst ` set d else fst ` set d - set ks)
     \<and> n \<le> n' \<and> (n' = n \<longrightarrow> d' = d)
     \<and> acted_keys dry out' = acted_keys dry out \<union> (set ks \<inter> fst ` set d)"
proof (induction ks arbitrary: d n out)
  case Nil
  then show ?case by auto
next
  case (Cons k ks)
  show ?case
  proof (cases "k \<in> fst ` set d")
    case False
    with Cons.prems have "remove_keys_loop dry ks d n out = (d', n', out')" by simp
    from Cons.IH[OF this] False show ?thesis by auto
  next
    case True
    show ?thesis
    proof (cases dry)
      case dry: True
      with Cons.prems True have "remove_keys_loop dry ks d (n + 1) (out @ [WouldRemove k]) = (d', n', out')"
        by simp
      from Cons.IH[OF this] True dry show ?thesis by (auto simp: acted_keys_def)
    next
      case nodry: False
      let ?d1 = "filter (\<lambda>p. fst p \<noteq> k) d"
      from Cons.prems True nodry
      have "remove_keys_loop dry ks ?d1 (n + 1) (out @ [Removed k]) = (d', n', out')"
        by simp
      from Cons.IH[OF this] True nodry show ?thesis by (auto simp: acted_keys_def)
    qed
  qed
qed

lemma keys_yaml_dump: "fst ` set (yaml_dump d) = fst ` set d"
  by (force simp: yaml_dump_def)

lemma present_orphans_mem:
  "k \<in> present_orphans fs obc \<longleftrightarrow>
     (\<exists>c oks d. (c, oks) \<in> set obc \<and> category_files fs c = Some d \<and> k \<in> set oks \<and> k \<in> fst ` set d)"
  by (simp add: present_orphans_def)

lemma present_orphans_Cons:
  "present_orphans fs ((c, oks) # obc) =
     (case category_files fs c of None \<Rightarrow> {} | Some d \<Rightarrow> set oks \<inter> fst ` set d) \<union> present_orphans fs obc"
  (is "?L = ?H \<union> ?R")
proof (rule set_eqI, rule iffI)
  fix k
  assume "k \<in> ?L"
  then obtain c' oks' d where m: "(c', oks') \<in> set ((c, oks) # obc)"
    and f: "category_files fs c' = Some d" and k: "k \<in> set oks'" "k \<in> fst ` set d"
    unfolding present_orphans_mem by blast
  show "k \<in> ?H \<union> ?R"
  proof (cases "(c', oks') = (c, oks)")
    case True
    with f k have "k \<in> ?H" by simp
    then show ?thesis by simp
  next
    case False
    with m have "(c', oks') \<in> set obc" by auto
    with f k have "k \<in> ?R" unfolding present_orphans_mem by blast
    then show ?thesis by simp
  qed
next
  fix k
  assume "k \<in> ?H \<union> ?R"
  then consider (h) "k \<in> ?H" | (r) "k \<in> ?R" by blast
  then show "k \<in> ?L"
  proof cases
    case h
    then obtain d where f: "category_files fs c = Some d" and k: "k \<in> set oks" "k \<in> fst ` set d"
      by (cases "category_files fs c") simp_all
    have "(c, oks) \<in> set ((c, oks) # obc)" by simp
    with f k show ?thesis unfolding present_orphans_mem by blast
  next
    case r
    then obtain c' oks' d where m: "(c', oks') \<in> set obc"
      and f: "category_files fs c' = Some d" and k: "k \<in> set oks'" "k \<in> fst ` set d"
      unfolding present_orphans_mem by blast
    from m have "(c', oks') \<in> set ((c, oks) # obc)" by simp
    with f k show ?thesis unfolding present_orphans_mem by blast
  qed
qed

lemma present_orphans_upd:
  assumes "c \<notin> fst ` set obc"
  shows "present_orphans (fs\<lparr>category_files := (category_files fs)(c \<mapsto> x)\<rparr>) obc
           = present_orphans fs obc"
proof -
  have ne: "ca \<noteq> c" if "(ca, oks) \<in> set obc" for ca oks
    using assms that by force
  have "(\<exists>c' oks d. (c', oks) \<in> set obc \<and> ((category_files fs)(c \<mapsto> x)) c' = Some d \<and> k \<in> set oks \<and> k \<in> fst ` set d)
      \<longleftrightarrow> (\<exists>c' oks d. (c', oks) \<in> set obc \<and> category_files fs c' = Some d \<and> k \<in> set oks \<and> k \<in> fst ` set d)" for k
  proof
    assume "\<exists>c' oks d. (c', oks) \<in> set obc \<and> ((category_files fs)(c \<mapsto> x)) c' = Some d \<and> k \<in> set oks \<and> k \<in> fst ` set d"
    then obtain c' oks d where m: "(c', oks) \<in> set obc" and f: "((category_files fs)(c \<mapsto> x)) c' = Some d"
      and k: "k \<in> set oks" "k \<in> fst ` set d" by blast
    from ne[OF m] f have "category_files fs c' = Some d" by simp
    with m k show "\<exists>c' oks d. (c', oks) \<in> set obc \<and> category_files fs c' = Some d \<and> k \<in> set oks \<and> k \<in> fst ` set d"
      by blast
  next
    assume "\<exists>c' oks d. (c', oks) \<in> set obc \<and> category_files fs c' = Some d \<and> k \<in> set oks \<and> k \<in> fst ` set d"
    then obtain c' oks d where m: "(c', oks) \<in> set obc" and f: "category_files fs c' = Some d"
      and k: "k \<in> set oks" "k \<in> fst ` set d" by blast
    from ne[OF m] f have "((category_files fs)(c \<mapsto> x)) c' = Some d" by simp
    with m k show "\<exists>c' oks d. (c', oks) \<in> set obc \<and> ((category_files fs)(c \<mapsto> x)) c' = Some d \<and> k \<in> set oks \<and> k \<in> fst ` set d"
      by blast
  qed
  then show ?thesis
    by (simp add: present_orphans_def)
qed

lemma acted_keys_append: "acted_keys dry (a @ b) = acted_keys dry a \<union> acted_keys dry b"
  by (auto simp: acted_keys_def)

lemma acted_keys_other [simp]:
  "acted_keys dry [CategoryFileNotFound c] = {}" "acted_keys dry [UpdatedCategory c n] = {}"
  "acted_keys dry [] = {}"
  by (auto simp: acted_keys_def)

lemma remove_categories_loop_result:
  "is_dict obc \<Longrightarrow> remove_categories_loop dry obc fs n out = (fs', n', out') \<Longrightarrow>
     index_file fs' = index_file fs
     \<and> (\<forall>c. shard_keys fs' c =
            (if dry then shard_keys fs c
             else case map_of obc c of
                    None \<Rightarrow> shard_keys fs c
                  | Some oks \<Rightarrow> map_option (\<lambda>S. S - set oks) (shard_keys fs c)))
     \<and> acted_keys dry out' = acted_keys dry out \<union> present_orphans fs obc"
proof (induction obc arbitrary: fs n out)
  case Nil
  then show ?case by (simp add: present_orphans_def)
next
  case (Cons p obc)
  obtain c oks where p: "p = (c, oks)" by (cases p)
  from Cons.prems(1) have nk: "c \<notin> fst ` set obc" and d: "is_dict obc"
    by (auto simp: is_dict_def p)
  from nk have none: "map_of obc c = None" by (simp add: map_of_eq_None_iff)
  show ?case
  proof (cases "category_files fs c")
    case None
    with Cons.prems(2)
    have run: "remove_categories_loop dry obc fs n (out @ [CategoryFileNotFound c]) = (fs', n', out')"
      by (simp add: p)
    have a: "acted_keys dry (out @ [CategoryFileNotFound c]) = acted_keys dry out"
      by (simp add: acted_keys_append)
    from Cons.IH[OF d run] None none show ?thesis
      by (auto simp: p a present_orphans_Cons shard_keys_def)
  next
    case (Some cd)
    obtain d' rc o' where r: "remove_keys_loop dry oks cd 0 [] = (d', rc, o')"
      by (cases "remove_keys_loop dry oks cd 0 []")
    from remove_keys_loop_result[OF r]
    have kd: "fst ` set d' = (if dry then fst ` set cd else fst ` set cd - set oks)"
      and same: "rc = 0 \<longrightarrow> d' = cd"
      and act: "acted_keys dry o' = set oks \<inter> fst ` set cd"
      by simp_all
    have app: "acted_keys dry (out @ o') = acted_keys dry out \<union> (set oks \<inter> fst ` set cd)"
      by (simp add: acted_keys_append act)
    show ?thesis
    proof (cases "rc > 0 \<and> \<not> dry")
      case True
      let ?fs1 = "fs\<lparr>category_files := (category_files fs)(c \<mapsto> yaml_dump d')\<rparr>"
      from Cons.prems(2) Some r True
      have run: "remove_categories_loop dry obc ?fs1 (n + rc) (out @ o' @ [UpdatedCategory c rc]) = (fs', n', out')"
        by (simp add: p)
      have a: "acted_keys dry (out @ o' @ [UpdatedCategory c rc]) = acted_keys dry out \<union> (set oks \<inter> fst ` set cd)"
        by (simp add: acted_keys_append act)
      have sk: "shard_keys ?fs1 c' = (if c' = c then Some (fst ` set cd - set oks) else shard_keys fs c')" for c'
        using True kd by (simp add: shard_keys_def keys_yaml_dump)
      from Cons.IH[OF d run] True
      have i: "index_file fs' = index_file fs"
        and s: "\<And>c'. shard_keys fs' c' =
                 (case map_of obc c' of None \<Rightarrow> shard_keys ?fs1 c'
                  | Some oks' \<Rightarrow> map_option (\<lambda>S. S - set oks') (shard_keys ?fs1 c'))"
        and o: "acted_keys dry out' = acted_keys dry (out @ o' @ [UpdatedCategory c rc]) \<union> present_orphans ?fs1 obc"
        by simp_all
      have s': "shard_keys fs' c' =
            (case map_of (p # obc) c' of None \<Rightarrow> shard_keys fs c'
             | Some oks' \<Rightarrow> map_option (\<lambda>S. S - set oks') (shard_keys fs c'))" for c'
      proof (cases "c' = c")
        case True
        have "shard_keys fs c = Some (fst ` set cd)" by (simp add: shard_keys_def Some)
        with True show ?thesis
          using s[of c] none by (simp add: sk p)
      next
        case False
        then show ?thesis
          using s[of c'] by (simp add: sk p split: option.splits)
      qed
      have o2: "acted_keys dry out' = acted_keys dry out \<union> present_orphans fs (p # obc)"
        unfolding o a present_orphans_upd[OF nk] p present_orphans_Cons Some by auto
      from i s' o2 True show ?thesis
        by simp
    next
      case False
      from Cons.prems(2) Some r False
      have run: "remove_categories_loop dry obc fs (n + rc) (out @ o') = (fs', n', out')"
        by (auto simp: p)
      from Cons.IH[OF d run]
      have i: "index_file fs' = index_file fs"
        and s: "\<And>c'. shard_keys fs' c' =
                 (if dry then shard_keys fs c'
                  else case map_of obc c' of None \<Rightarrow> shard_keys fs c'
                  | Some oks' \<Rightarrow> map_option (\<lambda>S. S - set oks') (shard_keys fs c'))"
        and o: "acted_keys dry out' = acted_keys dry (out @ o') \<union> present_orphans fs obc"
        by simp_all
      have unchanged: "\<not> dry \<Longrightarrow> fst ` set cd - set oks = fst ` set cd"
      proof -
        assume nd: "\<not> dry"
        with False have "rc = 0" by simp
        with same have "d' = cd" by simp
        with kd nd show ?thesis by simp
      qed
      have s': "shard_keys fs' c' =
            (if dry then shard_keys fs c'
             else case map_of (p # obc) c' of None \<Rightarrow> shard_keys fs c'
             | Some oks' \<Rightarrow> map_option (\<lambda>S. S - set oks') (shard_keys fs c'))" for c'
      proof (cases "c' = c")
        case True
        then show ?thesis
          using s[of c'] none Some unchanged by (auto simp: p shard_keys_def)
      next
        case False
        then show ?thesis
          using s[of c'] by (simp add: p)
      qed
      have o2: "acted_keys dry out' = acted_keys dry out \<union> present_orphans fs (p # obc)"
        unfolding o app p present_orphans_Cons Some by auto
      from i s' o2 show ?thesis
        by simp
    qed
  qed
qed

lemma find_orphaned_metadata_eq:
  "index_file fs = Some index \<Longrightarrow>
     find_orphaned_metadata fs xml =
       (Inr (find_orphaned_loop (fst (get_strings_from_xml xml)) (categories index) []),
        snd (get_strings_from_xml xml))"
  by (simp add: find_orphaned_metadata_def split: prod.splits)

lemma key_lines_xml_out: "key_lines (snd (get_strings_from_xml xml)) = {}"
  by (cases xml) (simp_all add: get_strings_from_xml_def key_lines_def)

lemma remove_orphaned_metadata_dry:
  assumes "is_dict obc"
  shows "\<exists>n out. remove_orphaned_metadata mtime fs obc True = (Inr n, fs, out)
           \<and> acted_keys True out = present_orphans fs obc"
proof -
  obtain fs1 n out where loop: "remove_categories_loop True obc fs 0 [] = (fs1, n, out)"
    by (cases "remove_categories_loop True obc fs 0 []")
  from remove_categories_loop_dry[OF loop] have fs1: "fs1 = fs" .
  from remove_categories_loop_result[OF assms loop]
  have "acted_keys True out = present_orphans fs obc" by simp
  moreover have "remove_orphaned_metadata mtime fs obc True = (Inr n, fs, out)"
    by (simp add: remove_orphaned_metadata_def loop fs1)
  ultimately show ?thesis by blast
qed

lemma shard_keys_index_upd: "shard_keys (fs\<lparr>index_file := x\<rparr>) = shard_keys fs"
  by (rule ext) (simp add: shard_keys_def)

lemma remove_orphaned_metadata_execute:
  assumes d: "is_dict obc" and idx: "index_file fs = Some index" and ok: "metadata_entry_ok index"
  shows "\<exists>n fs_e out index_e.
           remove_orphaned_metadata mtime fs obc False = (Inr n, fs_e, out)
         \<and> index_file fs_e = Some index_e
         \<and> categories index_e = fold remove_from_index obc (categories index)
         \<and> (\<forall>c. shard_keys fs_e c =
                (case map_of obc c of
                   None \<Rightarrow> shard_keys fs c
                 | Some oks \<Rightarrow> map_option (\<lambda>S. S - set oks) (shard_keys fs c)))
         \<and> acted_keys False out = present_orphans fs obc"
proof -
  obtain fs1 n out where loop: "remove_categories_loop False obc fs 0 [] = (fs1, n, out)"
    by (cases "remove_categories_loop False obc fs 0 []")
  from remove_categories_loop_result[OF d loop]
  have i1: "index_file fs1 = Some index"
    and sk: "\<And>c. shard_keys fs1 c =
                (case map_of obc c of
                   None \<Rightarrow> shard_keys fs c
                 | Some oks \<Rightarrow> map_option (\<lambda>S. S - set oks) (shard_keys fs c))"
    and act: "acted_keys False out = present_orphans fs obc"
    by (simp_all add: idx)
  have act': "acted_keys False (out @ [UpdatedIndex]) = present_orphans fs obc"
    using act by (auto simp: acted_keys_def)
  let ?cats = "fold remove_from_index obc (categories index)"
  show ?thesis
  proof (cases "map_of (index_rest index) ''metadata''")
    case None
    let ?fs_e = "fs1\<lparr>index_file := Some (index\<lparr>categories := ?cats\<rparr>)\<rparr>"
    have "remove_orphaned_metadata mtime fs obc False = (Inr n, ?fs_e, out @ [UpdatedIndex])"
      by (simp add: remove_orphaned_metadata_def loop i1 None Let_def)
    moreover have "index_file ?fs_e = Some (index\<lparr>categories := ?cats\<rparr>)" by simp
    moreover have "categories (index\<lparr>categories := ?cats\<rparr>) = ?cats" by simp
    moreover have "\<forall>c. shard_keys ?fs_e c =
                (case map_of obc c of
                   None \<Rightarrow> shard_keys fs c
                 | Some oks \<Rightarrow> map_option (\<lambda>S. S - set oks) (shard_keys fs c))"
      by (simp add: shard_keys_index_upd sk)
    ultimately show ?thesis using act' by blast
  next
    case (Some v)
    with ok obtain md where v: "v = JDict md"
      by (cases v) (simp_all add: metadata_entry_ok_def)
    let ?index_e = "index\<lparr>categories := ?cats,
        index_rest := dict_set ''metadata'' (JDict (dict_set ''last_updated'' (JStr mtime) md)) (index_rest index)\<rparr>"
    let ?fs_e = "fs1\<lparr>index_file := Some ?index_e\<rparr>"
    have "remove_orphaned_metadata mtime fs obc False = (Inr n, ?fs_e, out @ [UpdatedIndex])"
      by (simp add: remove_orphaned_metadata_def loop i1 Some v Let_def)
    moreover have "index_file ?fs_e = Some ?index_e" by simp
    moreover have "categories ?index_e = ?cats" by simp
    moreover have "\<forall>c. shard_keys ?fs_e c =
                (case map_of obc c of
                   None \<Rightarrow> shard_keys fs c
                 | Some oks \<Rightarrow> map_option (\<lambda>S. S - set oks) (shard_keys fs c))"
      by (simp add: shard_keys_index_upd sk)
    ultimately show ?thesis using act' by blast
  qed
qed

lemma filter_not_orphaned:
  "filter (\<lambda>k. k \<notin> set (filter (\<lambda>k. k \<notin> X) ks)) ks = filter (\<lambda>k. k \<in> X) ks"
  by (rule filter_cong) auto

lemma cleaned_index_keys:
  assumes d: "is_dict cats"
  shows "\<Union> (set ` snd ` set (fold remove_from_index (find_orphaned_loop X cats []) cats))
           = \<Union> (set ` snd ` set cats) \<inter> X"
proof -
  let ?obc = "find_orphaned_loop X cats []"
  let ?cats' = "fold remove_from_index ?obc cats"
  have dobc: "is_dict ?obc"
    by (rule find_orphaned_loop_is_dict) (simp add: is_dict_def)
  have dc': "is_dict ?cats'"
    by (rule fold_remove_from_index_is_dict[OF d])
  have lobc: "map_of ?obc c =
      (case map_of cats c of None \<Rightarrow> None
       | Some ks \<Rightarrow> if filter (\<lambda>k. k \<notin> X) ks \<noteq> [] then Some (filter (\<lambda>k. k \<notin> X) ks) else None)" for c
    using find_orphaned_loop_lookup[OF d, of X "[]" c] by (simp split: option.splits)
  have look: "map_of ?cats' c =
      (case map_of cats c of None \<Rightarrow> None
       | Some ks \<Rightarrow>
           if filter (\<lambda>k. k \<notin> X) ks \<noteq> [] \<and> filter (\<lambda>k. k \<in> X) ks = [] then None
           else Some (filter (\<lambda>k. k \<in> X) ks))" for c
  proof (cases "map_of cats c")
    case None
    then show ?thesis
      by (simp add: fold_remove_from_index_lookup[OF dobc] lobc)
  next
    case (Some ks)
    show ?thesis
    proof (cases "filter (\<lambda>k. k \<notin> X) ks = []")
      case True
      then have "\<forall>k \<in> set ks. k \<in> X" by (simp add: filter_empty_conv)
      then have "filter (\<lambda>k. k \<in> X) ks = ks" by (simp add: filter_id_conv)
      with True Some show ?thesis
        by (simp add: fold_remove_from_index_lookup[OF dobc] lobc)
    next
      case False
      with Some have o: "map_of ?obc c = Some (filter (\<lambda>k. k \<notin> X) ks)"
        by (simp add: lobc)
      have "map_of ?cats' c =
          (if filter (\<lambda>k. k \<notin> set (filter (\<lambda>k. k \<notin> X) ks)) ks = [] then None
           else Some (filter (\<lambda>k. k \<notin> set (filter (\<lambda>k. k \<notin> X) ks)) ks))"
        by (simp only: fold_remove_from_index_lookup[OF dobc] o Some option.case)
      then have "map_of ?cats' c =
          (if filter (\<lambda>k. k \<in> X) ks = [] then None else Some (filter (\<lambda>k. k \<in> X) ks))"
        by (simp only: filter_not_orphaned)
      with False Some show ?thesis by simp
    qed
  qed
  show ?thesis
    unfolding keys_union_map_of[OF dc'] keys_union_map_of[OF d]
  proof (intro set_eqI iffI)
    fix k
    assume "k \<in> {k. \<exists>c ks. map_of ?cats' c = Some ks \<and> k \<in> set ks}"
    then obtain c ks' where m: "map_of ?cats' c = Some ks'" and k: "k \<in> set ks'" by blast
    from m obtain ks where c: "map_of cats c = Some ks" and ks': "ks' = filter (\<lambda>k. k \<in> X) ks"
      by (auto simp: look split: option.splits if_splits)
    from k ks' have "k \<in> set ks" "k \<in> X" by simp_all
    with c show "k \<in> {k. \<exists>c ks. map_of cats c = Some ks \<and> k \<in> set ks} \<inter> X" by blast
  next
    fix k
    assume "k \<in> {k. \<exists>c ks. map_of cats c = Some ks \<and> k \<in> set ks} \<inter> X"
    then obtain c ks where c: "map_of cats c = Some ks" and k: "k \<in> set ks" "k \<in> X" by blast
    from k have kk: "k \<in> set (filter (\<lambda>k. k \<in> X) ks)" by simp
    then have ne: "filter (\<lambda>k. k \<in> X) ks \<noteq> []" by (metis empty_iff list.set(1))
    have "map_of ?cats' c = Some (filter (\<lambda>k. k \<in> X) ks)"
      using ne by (simp add: look c)
    with kk show "k \<in> {k. \<exists>c ks. map_of ?cats' c = Some ks \<and> k \<in> set ks}" by blast
  qed
qed

lemma key_lines_Nil [simp]: "key_lines [] = {}"
  by (simp add: key_lines_def)

lemma key_lines_Cons_other: "(\<And>k. l \<noteq> KeyLine k) \<Longrightarrow> key_lines (l # out) = key_lines out"
  by (auto simp: key_lines_def)

lemma remove_keys_loop_key_lines:
  "remove_keys_loop dry ks d n out = (d', n', out') \<Longrightarrow> key_lines out' = key_lines out"
proof (induction ks arbitrary: d n out)
  case Nil
  then show ?case by simp
next
  case (Cons k ks)
  show ?case
  proof (cases "k \<in> fst ` set d")
    case False
    with Cons.prems have "remove_keys_loop dry ks d n out = (d', n', out')" by simp
    from Cons.IH[OF this] show ?thesis .
  next
    case True
    show ?thesis
    proof (cases dry)
      case dry: True
      with Cons.prems True have "remove_keys_loop dry ks d (n + 1) (out @ [WouldRemove k]) = (d', n', out')"
        by simp
      from Cons.IH[OF this] show ?thesis by (simp add: key_lines_append key_lines_Cons_other)
    next
      case nodry: False
      with Cons.prems True
      have "remove_keys_loop dry ks (filter (\<lambda>p. fst p \<noteq> k) d) (n + 1) (out @ [Removed k]) = (d', n', out')"
        by simp
      from Cons.IH[OF this] show ?thesis by (simp add: key_lines_append key_lines_Cons_other)
    qed
  qed
qed

lemma remove_categories_loop_key_lines:
  "remove_categories_loop dry obc fs n out = (fs', n', out') \<Longrightarrow> key_lines out' = key_lines out"
proof (induction obc arbitrary: fs n out)
  case Nil
  then show ?case by simp
next
  case (Cons p obc)
  obtain c oks where p: "p = (c, oks)" by (cases p)
  show ?case
  proof (cases "category_files fs c")
    case None
    with Cons.prems
    have "remove_categories_loop dry obc fs n (out @ [CategoryFileNotFound c]) = (fs', n', out')"
      by (simp add: p)
    from Cons.IH[OF this] show ?thesis by (simp add: key_lines_append key_lines_Cons_other)
  next
    case (Some cd)
    obtain d' rc o' where r: "remove_keys_loop dry oks cd 0 [] = (d', rc, o')"
      by (cases "remove_keys_loop dry oks cd 0 []")
    from remove_keys_loop_key_lines[OF r] have ko: "key_lines o' = {}" by simp
    show ?thesis
    proof (cases "rc > 0 \<and> \<not> dry")
      case True
      with Cons.prems Some r
      have "remove_categories_loop dry obc
              (fs\<lparr>category_files := (category_files fs)(c \<mapsto> yaml_dump d')\<rparr>)
              (n + rc) (out @ o' @ [UpdatedCategory c rc]) = (fs', n', out')"
        by (simp add: p)
      from Cons.IH[OF this] show ?thesis
        by (simp add: key_lines_append key_lines_Cons_other ko)
    next
      case False
      with Cons.prems Some r
      have "remove_categories_loop dry obc fs (n + rc) (out @ o') = (fs', n', out')"
        by (auto simp: p)
      from Cons.IH[OF this] show ?thesis
        by (simp add: key_lines_append ko)
    qed
  qed
qed

lemma remove_orphaned_metadata_key_lines:
  "remove_orphaned_metadata mtime fs obc dry = (r, fs', out) \<Longrightarrow> key_lines out = {}"
proof -
  assume run: "remove_orphaned_metadata mtime fs obc dry = (r, fs', out)"
  obtain fs1 n out1 where loop: "remove_categories_loop dry obc fs 0 [] = (fs1, n, out1)"
    by (cases "remove_categories_loop dry obc fs 0 []")
  from remove_categories_loop_key_lines[OF loop] have k1: "key_lines out1 = {}" by simp
  from run have "out = out1 \<or> out = out1 @ [UpdatedIndex]"
    by (auto simp: remove_orphaned_metadata_def loop Let_def split: if_splits option.splits json.splits)
  then show ?thesis
    using k1 by (auto simp: key_lines_append key_lines_Cons_other)
qed


subsection \<open>Dry run against execute\<close>

text \<open>
  Claim C8. Let the index exist, with distinct category names and a well-formed
  \<open>metadata\<close> entry. A command line without \<open>--execute\<close> runs \<open>main\<close> as a dry run:
  it returns and leaves every file as it was. With \<open>--execute\<close>, \<open>main\<close> prints, after
  the banner line that names the mode, the same lines as the dry run up to the point
  where the dry run prints its notice and the execute run starts removing; the keys
  listed in that common preview are the keys of the orphan report, and no other line
  lists a key. The execute run removes exactly those keys: the keys the index lists
  afterwards are the former ones minus the reported ones, and each shard file holds its
  former keys minus the keys reported for its category. \<open>remove_orphaned_metadata\<close>
  called with \<open>dry_run\<close> set changes no file and names as keys it would remove the
  keys that the call without \<open>dry_run\<close> names as removed.
\<close>

theorem cleanup_dry_run_contract:
  assumes idx: "index_file fs = Some index"
    and cats: "is_dict (categories index)"
    and meta: "metadata_entry_ok index"
    and dry: "''--execute'' \<notin> set argv_d"
    and exe: "''--execute'' \<in> set argv_e"
  shows "\<exists>obc preview tail_d tail_e fs_e.
      fst (find_orphaned_metadata fs xml) = Inr obc
    \<and> main argv_d mtime fs xml = (Inr (), fs, Header True # preview @ tail_d)
    \<and> main argv_e mtime fs xml = (Inr (), fs_e, Header False # preview @ tail_e)
    \<and> tail_d = (if obc = [] then [] else [DryRunNotice])
    \<and> (\<exists>rest. tail_e = (if obc = [] then [] else Removing # rest))
    \<and> key_lines preview = orphans_of obc
    \<and> key_lines tail_d = {} \<and> key_lines tail_e = {}
    \<and> orphans_of obc \<subseteq> index_keys fs
    \<and> index_keys fs_e = index_keys fs - orphans_of obc
    \<and> (\<forall>c. shard_keys fs_e c =
           (case map_of obc c of
              None \<Rightarrow> shard_keys fs c
            | Some oks \<Rightarrow> map_option (\<lambda>S. S - set oks) (shard_keys fs c)))
    \<and> (\<exists>n_d out_d n_e fs_x out_e.
           remove_orphaned_metadata mtime fs obc True = (Inr n_d, fs, out_d)
         \<and> remove_orphaned_metadata mtime fs obc False = (Inr n_e, fs_x, out_e)
         \<and> acted_keys True out_d = acted_keys False out_e)"
proof -
  let ?X = "fst (get_strings_from_xml xml)"
  let ?out0 = "snd (get_strings_from_xml xml)"
  let ?obc = "find_orphaned_loop ?X (categories index) []"
  let ?pre0 = "[MetadataDirectory, StringsFile, Rule] @ ?out0"
  let ?preview = "?pre0 @ (if ?obc = [] then [NoOrphans] else summary_lines ?obc)"
  let ?tail_d = "if ?obc = [] then [] else [DryRunNotice]"
  have find: "find_orphaned_metadata fs xml = (Inr ?obc, ?out0)"
    by (rule find_orphaned_metadata_eq[OF idx])
  have dobc: "is_dict ?obc"
    by (rule find_orphaned_loop_is_dict) (simp add: is_dict_def)
  have orph: "orphans_of ?obc = index_keys fs - ?X"
    by (simp add: orphans_of_find[OF cats] index_keys_def idx)
  have sub: "orphans_of ?obc \<subseteq> index_keys fs"
    by (auto simp: orph)
  have kp0: "key_lines ?pre0 = {}"
    by (simp add: key_lines_append key_lines_xml_out key_lines_Cons_other)
  have kprev: "key_lines ?preview = orphans_of ?obc"
  proof -
    have "key_lines ?preview
            = key_lines ?pre0 \<union> key_lines (if ?obc = [] then [NoOrphans] else summary_lines ?obc)"
      by (rule key_lines_append)
    also have "\<dots> = key_lines (if ?obc = [] then [NoOrphans] else summary_lines ?obc)"
      by (simp only: kp0 Un_empty_left)
    also have "\<dots> = orphans_of ?obc"
      by (cases "?obc = []") (simp_all add: key_lines_summary key_lines_Cons_other orphans_of_def)
    finally show ?thesis .
  qed
  have main_d: "main argv_d mtime fs xml = (Inr (), fs, Header True # ?preview @ ?tail_d)"
    using dry by (simp add: main_def find Let_def)
  have ktd: "key_lines ?tail_d = {}"
    by (simp add: key_lines_Cons_other)
  from remove_orphaned_metadata_dry[OF dobc, of mtime fs] obtain n_d out_d where
    fd: "remove_orphaned_metadata mtime fs ?obc True = (Inr n_d, fs, out_d)"
    and ad: "acted_keys True out_d = present_orphans fs ?obc" by blast
  from remove_orphaned_metadata_execute[OF dobc idx meta, of mtime] obtain n_e fs_x out_e index_e where
    fe: "remove_orphaned_metadata mtime fs ?obc False = (Inr n_e, fs_x, out_e)"
    and ie: "index_file fs_x = Some index_e"
    and ce: "categories index_e = fold remove_from_index ?obc (categories index)"
    and se: "\<forall>c. shard_keys fs_x c =
                (case map_of ?obc c of
                   None \<Rightarrow> shard_keys fs c
                 | Some oks \<Rightarrow> map_option (\<lambda>S. S - set oks) (shard_keys fs c))"
    and ae: "acted_keys False out_e = present_orphans fs ?obc" by blast
  have fn: "\<exists>n_d out_d n_e fs_x out_e.
           remove_orphaned_metadata mtime fs ?obc True = (Inr n_d, fs, out_d)
         \<and> remove_orphaned_metadata mtime fs ?obc False = (Inr n_e, fs_x, out_e)
         \<and> acted_keys True out_d = acted_keys False out_e"
    using fd fe ad ae by auto
  have kx: "index_keys fs_x = index_keys fs - orphans_of ?obc"
  proof -
    have "index_keys fs_x = \<Union> (set ` snd ` set (categories index_e))"
      by (simp add: index_keys_def ie)
    also have "\<dots> = \<Union> (set ` snd ` set (categories index)) \<inter> ?X"
      unfolding ce by (rule cleaned_index_keys[OF cats])
    also have "\<dots> = index_keys fs - orphans_of ?obc"
      by (auto simp: orph index_keys_def idx)
    finally show ?thesis .
  qed
  show ?thesis
  proof (cases "?obc = []")
    case True
    have main_e: "main argv_e mtime fs xml = (Inr (), fs, Header False # ?preview @ [])"
      using exe True by (simp add: main_def find Let_def)
    have k0: "index_keys fs = index_keys fs - orphans_of ?obc"
      by (simp add: True orphans_of_def)
    have s0: "\<forall>c. shard_keys fs c =
           (case map_of ?obc c of
              None \<Rightarrow> shard_keys fs c
            | Some oks \<Rightarrow> map_option (\<lambda>S. S - set oks) (shard_keys fs c))"
      by (simp add: True)
    have te: "\<exists>rest. [] = (if ?obc = [] then [] else Removing # rest)"
      using True by simp
    have ke: "key_lines ([] :: out_line list) = {}" by simp
    from find main_d main_e te kprev ktd ke sub k0 s0 fn show ?thesis
      by (intro exI[of _ ?obc] exI[of _ ?preview] exI[of _ ?tail_d] exI[of _ "[]"] exI[of _ fs])
        (simp del: append.simps)
  next
    case False
    let ?tail_e = "Removing # out_e @ [CleanupComplete n_e]"
    have main_e: "main argv_e mtime fs xml = (Inr (), fs_x, Header False # ?preview @ ?tail_e)"
      using exe False by (simp add: main_def find Let_def fe)
    have te: "\<exists>rest. ?tail_e = (if ?obc = [] then [] else Removing # rest)"
      using False by simp
    have ke: "key_lines ?tail_e = {}"
      using remove_orphaned_metadata_key_lines[OF fe]
      by (simp add: key_lines_append key_lines_Cons_other)
    from find main_d main_e te kprev ktd ke sub kx se fn show ?thesis
      by (intro exI[of _ ?obc] exI[of _ ?preview] exI[of _ ?tail_d] exI[of _ ?tail_e] exI[of _ fs_x])
        (simp del: append.simps)
  qed
qed

theorem cleanup_dry_run_contract_witness:
  "index_file ex_io_bare = Some ex_index
   \<and> is_dict (categories ex_index)
   \<and> metadata_entry_ok ex_index
   \<and> ''--execute'' \<notin> set ex_argv_dry
   \<and> ''--execute'' \<in> set ex_argv_execute
   \<and> fst (find_orphaned_metadata ex_io_bare ex_xml) = Inr [(''a'', [''k1''])]
   \<and> (\<exists>preview tail_e fs_e.
         main ex_argv_dry ''1700000000.0'' ex_io_bare ex_xml
           = (Inr (), ex_io_bare, Header True # preview @ [DryRunNotice])
       \<and> main ex_argv_execute ''1700000000.0'' ex_io_bare ex_xml
           = (Inr (), fs_e, Header False # preview @ tail_e)
       \<and> key_lines preview = {''k1''}
       \<and> index_keys fs_e = {''k2''}
       \<and> shard_keys fs_e ''a'' = Some {}
       \<and> shard_keys fs_e ''b'' = Some {''k2''})"
proof -
  let ?obc = "[(''a'', [''k1''])]"
  have h1: "index_file ex_io_bare = Some ex_index"
    by (simp add: ex_io_bare_def create_metadata_io_def)
  have h2: "is_dict (categories ex_index)"
    by (simp add: is_dict_def ex_index_def)
  have h3: "metadata_entry_ok ex_index"
    by (simp add: metadata_entry_ok_def ex_index_def)
  have h4: "''--execute'' \<notin> set ex_argv_dry"
    by (simp add: ex_argv_dry_def)
  have h5: "''--execute'' \<in> set ex_argv_execute"
    by (simp add: ex_argv_execute_def)
  have f: "fst (find_orphaned_metadata ex_io_bare ex_xml) = Inr ?obc"
    by (simp add: find_orphaned_metadata_def get_strings_from_xml_def ex_xml_def h1 ex_index_def)
  have ik: "index_keys ex_io_bare = {''k1'', ''k2''}"
    by (auto simp: index_keys_def h1 ex_index_def)
  have sa: "shard_keys ex_io_bare ''a'' = Some {''k1''}"
    and sb: "shard_keys ex_io_bare ''b'' = Some {''k2''}"
    by (simp_all add: shard_keys_def ex_io_bare_def create_metadata_io_def ex_shards_def)
  from cleanup_dry_run_contract[OF h1 h2 h3 h4 h5, of ex_xml "''1700000000.0''"]
  obtain obc preview tail_d tail_e fs_e where
    o: "fst (find_orphaned_metadata ex_io_bare ex_xml) = Inr obc"
    and md: "main ex_argv_dry ''1700000000.0'' ex_io_bare ex_xml
               = (Inr (), ex_io_bare, Header True # preview @ tail_d)"
    and me: "main ex_argv_execute ''1700000000.0'' ex_io_bare ex_xml
               = (Inr (), fs_e, Header False # preview @ tail_e)"
    and td: "tail_d = (if obc = [] then [] else [DryRunNotice])"
    and kp: "key_lines preview = orphans_of obc"
    and ke: "index_keys fs_e = index_keys ex_io_bare - orphans_of obc"
    and sk: "\<forall>c. shard_keys fs_e c =
           (case map_of obc c of
              None \<Rightarrow> shard_keys ex_io_bare c
            | Some oks \<Rightarrow> map_option (\<lambda>S. S - set oks) (shard_keys ex_io_bare c))"
    by blast
  from o f have obc: "obc = ?obc" by simp
  have oo: "orphans_of obc = {''k1''}" by (simp add: obc orphans_of_def)
  have "tail_d = [DryRunNotice]" by (simp add: td obc)
  moreover have "key_lines preview = {''k1''}" by (simp add: kp oo)
  moreover have "index_keys fs_e = {''k2''}" by (auto simp: ke oo ik)
  moreover have "shard_keys fs_e ''a'' = Some {}" using sk[rule_format, of "''a''"] by (simp add: obc sa)
  moreover have "shard_keys fs_e ''b'' = Some {''k2''}" using sk[rule_format, of "''b''"] by (simp add: obc sb)
  ultimately show ?thesis using h1 h2 h3 h4 h5 f md me by blast
qed

section \<open>Properties of the working-set save\<close>

lemmas save_defs =
  save_def save_split_def save_legacy_def save_category_def save_index_def is_split_format_def
  yaml_dump_def to_dict_def load_index_def create_metadata_io_def dict_get_def

lemmas ex_mgr_defs =
  ex_manager_def ex_manager_moved_def ex_meta1_def ex_meta2_def ex_shards_mgr_def ex_index_def

lemma save_unchanged_working_set:
  "\<exists>io'. mm_io (save ''2024-06-01'' ex_manager) = Some io'
    \<and> map_option categories (index_file io') = Some [(''a'', [''k1'']), (''b'', [''k2''])]
    \<and> map_option (map fst) (category_files io' ''a'') = Some [''k1'']
    \<and> map_option (map fst) (category_files io' ''b'') = Some [''k2'']
    \<and> mm_legacy_file (save ''2024-06-01'' ex_manager) = None"
  by (simp add: save_defs ex_mgr_defs Let_def)

text \<open>
  Claim C6 is not met by the code. In \<open>ex_manager_moved\<close> the record of \<open>k1\<close>, the only
  one of category \<open>a\<close>, has its category changed to \<open>b\<close>. \<open>save\<close> succeeds in the
  split format, writes shard \<open>b\<close> with both keys and an index that lists only \<open>b\<close>;
  the file of shard \<open>a\<close> is not written and still holds the entry for \<open>k1\<close>.
\<close>

theorem save_category_move_stale_shard:
  "\<exists>io'. mm_io (save ''2024-06-01'' ex_manager_moved) = Some io'
    \<and> mm_legacy_file (save ''2024-06-01'' ex_manager_moved) = None
    \<and> map_option categories (index_file io') = Some [(''b'', [''k1'', ''k2''])]
    \<and> map_option (map fst) (category_files io' ''b'') = Some [''k1'', ''k2'']
    \<and> category_files io' ''a'' = Some [(''k1'', JDict (to_dict ex_meta1))]"
  by (simp add: save_defs ex_mgr_defs Let_def)

end
